theory Spec2Isabelle
  imports Complex_Main
begin

section \<open>The OpenCV image pipeline of ueberzugpp (src/image/opencv.cpp)\<close>

text \<open>
  The class \<^verbatim>\<open>OpencvImage\<close> loads a file with OpenCV, corrects its EXIF orientation,
  resizes it (writing the resized image to the cache), moves the origin when centring is
  requested and converts depth, alpha and channel order for the output backend.

  The object is a record that every member function takes and returns. The calls into
  OpenCV and into the logger are effects: each one appends an event to the field
  \<open>trace\<close>, in program order, so that statements about which library call happens, how
  often and in which order are statements about that list. What the file system, the EXIF
  reader, the OpenCL runtime and the size resolver answer is not decided by this file of the
  program; those answers are the fields of the record \<open>externals\<close>.
\<close>

subsection \<open>Pixel buffers: cv::Mat\<close>

text \<open>
  A buffer has its shape (\<open>rows\<close>, \<open>cols\<close>), its depth, its channel count and its
  elements: a list of rows, each a list of pixels, each a list of channel values. The two
  depths are the unsigned ones the pipeline handles (8 and 16 bit).
\<close>

type_synonym pixel = "nat list"

datatype cv_depth = CV_8U | CV_16U

record mat =
  rows :: nat
  cols :: nat
  mdepth :: cv_depth
  mchannels :: nat
  mdata :: "pixel list list"

text \<open>\<^verbatim>\<open>Mat::empty()\<close>, \<^verbatim>\<open>Mat::total()\<close>, \<^verbatim>\<open>Mat::elemSize1()\<close>, \<^verbatim>\<open>Mat::elemSize()\<close>.\<close>

definition mat_empty :: "mat \<Rightarrow> bool" where
  "mat_empty m = (rows m = 0 \<or> cols m = 0)"

definition mat_total :: "mat \<Rightarrow> nat" where
  "mat_total m = rows m * cols m"

fun elemSize1 :: "cv_depth \<Rightarrow> nat" where
  "elemSize1 CV_8U = 1"
| "elemSize1 CV_16U = 2"

definition elemSize :: "mat \<Rightarrow> nat" where
  "elemSize m = mchannels m * elemSize1 (mdepth m)"

text \<open>A default-constructed buffer (the member \<^verbatim>\<open>uimage\<close> before its first use).\<close>

definition empty_mat :: mat where
  "empty_mat = \<lparr>rows = 0, cols = 0, mdepth = CV_8U, mchannels = 1, mdata = []\<rparr>"

text \<open>
  A buffer is well formed when its element lists have the shape its header announces.
  Every buffer OpenCV hands out is.
\<close>

definition mat_ok :: "mat \<Rightarrow> bool" where
  "mat_ok m =
     (length (mdata m) = rows m \<and>
      list_all (\<lambda>r. length r = cols m \<and> list_all (\<lambda>p. length p = mchannels m) r) (mdata m))"

subsection \<open>The OpenCV primitives the pipeline calls\<close>

text \<open>
  \<^verbatim>\<open>cv::flip(src, dst, flipCode)\<close>: 0 flips around the x axis (the rows are reversed:
  a vertical flip), a positive code flips around the y axis (every row is reversed: a
  horizontal flip), a negative code flips around both.
\<close>

definition cv_flip :: "int \<Rightarrow> mat \<Rightarrow> mat" where
  "cv_flip flipCode m =
     m\<lparr>mdata :=
        (if flipCode = 0 then rev (mdata m)
         else if 0 < flipCode then map rev (mdata m)
         else rev (map rev (mdata m)))\<rparr>"

text \<open>
  \<^verbatim>\<open>cv::rotate(src, dst, rotateCode)\<close>: a quarter turn exchanges rows and columns;
  clockwise is the transposition followed by a horizontal flip, counter-clockwise the
  transposition followed by a vertical flip.
\<close>

datatype RotateFlags = ROTATE_90_CLOCKWISE | ROTATE_180 | ROTATE_90_COUNTERCLOCKWISE

fun cv_rotate :: "RotateFlags \<Rightarrow> mat \<Rightarrow> mat" where
  "cv_rotate ROTATE_90_CLOCKWISE m =
     m\<lparr>rows := cols m, cols := rows m, mdata := map rev (transpose (mdata m))\<rparr>"
| "cv_rotate ROTATE_180 m = m\<lparr>mdata := rev (map rev (mdata m))\<rparr>"
| "cv_rotate ROTATE_90_COUNTERCLOCKWISE m =
     m\<lparr>rows := cols m, cols := rows m, mdata := rev (transpose (mdata m))\<rparr>"

text \<open>
  \<^verbatim>\<open>Mat::convertTo(dst, CV_8U, alpha)\<close> stores \<^verbatim>\<open>saturate_cast<uchar>(alpha * v)\<close> for
  every element \<open>v\<close>. From a floating-point value \<^verbatim>\<open>saturate_cast\<close> first rounds to the
  nearest integer (\<^verbatim>\<open>cvRound\<close>, ties to the even neighbour) and then clips to 0..255.
  The factor the pipeline passes, 0.00390625, is the binary fraction 1/256, and a 16-bit
  value times 1/256 is exact in floating point, so rational arithmetic computes the same
  numbers.
\<close>

definition cvRound :: "rat \<Rightarrow> int" where
  "cvRound q =
     (let f = \<lfloor>q\<rfloor>; d = q - of_int f in
      if d < 1 / 2 then f
      else if 1 / 2 < d then f + 1
      else if even f then f else f + 1)"

definition saturate_uchar :: "int \<Rightarrow> nat" where
  "saturate_uchar i = (if i < 0 then 0 else if 255 < i then 255 else nat i)"

definition convert_value :: "rat \<Rightarrow> nat \<Rightarrow> nat" where
  "convert_value alpha v = saturate_uchar (cvRound (of_nat v * alpha))"

definition convertTo_CV_8U :: "rat \<Rightarrow> mat \<Rightarrow> mat" where
  "convertTo_CV_8U alpha m =
     m\<lparr>mdepth := CV_8U, mdata := map (map (map (convert_value alpha))) (mdata m)\<rparr>"

text \<open>
  \<^verbatim>\<open>cv::cvtColor(src, dst, code)\<close> for the five codes the pipeline uses. A new alpha
  channel is filled with the maximum of the depth (255 for 8 bit). Each code is defined
  on pixels of the channel count it is documented for.
\<close>

datatype ColorConversionCodes =
  COLOR_GRAY2BGRA | COLOR_BGR2BGRA | COLOR_BGRA2RGBA | COLOR_BGR2RGB | COLOR_BGRA2RGB

fun alpha_max :: "cv_depth \<Rightarrow> nat" where
  "alpha_max CV_8U = 255"
| "alpha_max CV_16U = 65535"

fun dst_channels :: "ColorConversionCodes \<Rightarrow> nat" where
  "dst_channels COLOR_GRAY2BGRA = 4"
| "dst_channels COLOR_BGR2BGRA = 4"
| "dst_channels COLOR_BGRA2RGBA = 4"
| "dst_channels COLOR_BGR2RGB = 3"
| "dst_channels COLOR_BGRA2RGB = 3"

fun cvt_pixel :: "ColorConversionCodes \<Rightarrow> nat \<Rightarrow> pixel \<Rightarrow> pixel" where
  "cvt_pixel COLOR_GRAY2BGRA amax [g] = [g, g, g, amax]"
| "cvt_pixel COLOR_BGR2BGRA amax [b, g, r] = [b, g, r, amax]"
| "cvt_pixel COLOR_BGRA2RGBA amax [b, g, r, a] = [r, g, b, a]"
| "cvt_pixel COLOR_BGR2RGB amax [b, g, r] = [r, g, b]"
| "cvt_pixel COLOR_BGRA2RGB amax [b, g, r, a] = [r, g, b]"

definition cv_cvtColor :: "ColorConversionCodes \<Rightarrow> mat \<Rightarrow> mat" where
  "cv_cvtColor code m =
     m\<lparr>mchannels := dst_channels code,
       mdata := map (map (cvt_pixel code (alpha_max (mdepth m)))) (mdata m)\<rparr>"

text \<open>
  The exceptions that can leave the constructor: \<^verbatim>\<open>std::runtime_error\<close> with its message,
  and OpenCV's \<^verbatim>\<open>cv::Exception\<close>.
\<close>

datatype exn = runtime_error string | cv_Exception

definition LoadError :: exn where
  "LoadError = runtime_error []"

text \<open>
  \<^verbatim>\<open>cv::resize(src, dst, Size(w, h), 0, 0, INTER_AREA)\<close> asserts that the source is not
  empty and, both scale factors being 0, that the requested size is not empty
  (\<^verbatim>\<open>Size::empty()\<close>: a width or a height that is zero or negative); a failed assertion
  raises \<^verbatim>\<open>cv::Exception\<close>. When the call returns, the buffer has the requested
  shape. The resampled elements are the library's; the function that computes them is a
  parameter (its first argument says whether the buffer is accelerator-resident).
\<close>

definition resize_raises :: "mat \<Rightarrow> int \<Rightarrow> int \<Rightarrow> bool" where
  "resize_raises m new_width new_height =
     (mat_empty m \<or> new_width \<le> 0 \<or> new_height \<le> 0)"

definition resized_mat ::
  "(bool \<Rightarrow> mat \<Rightarrow> int \<Rightarrow> int \<Rightarrow> pixel list list) \<Rightarrow> bool \<Rightarrow> int \<Rightarrow> int \<Rightarrow> mat \<Rightarrow> mat" where
  "resized_mat interp on_umat new_width new_height m =
     m\<lparr>rows := nat new_height, cols := nat new_width,
       mdata := interp on_umat m new_width new_height\<rparr>"

definition cv_resize ::
  "(bool \<Rightarrow> mat \<Rightarrow> int \<Rightarrow> int \<Rightarrow> pixel list list) \<Rightarrow> bool \<Rightarrow> int \<Rightarrow> int \<Rightarrow> mat
     \<Rightarrow> exn + mat" where
  "cv_resize interp on_umat new_width new_height m =
     (if resize_raises m new_width new_height then Inl cv_Exception
      else Inr (resized_mat interp on_umat new_width new_height m))"

subsection \<open>Configuration, dimensions and the outside world\<close>

text \<open>
  Modelled from the spec: the classes \<^verbatim>\<open>Flags\<close>, \<^verbatim>\<open>Terminal\<close> and \<^verbatim>\<open>Dimensions\<close>
  are declared in headers outside this file. The records hold the members this file
  reads or writes, under the names it uses, with the types of sections 3 and 6 of the
  specification: the backend name is a string, the scale factor and the pixel and cell
  counts are integers, the switches are booleans. (\<open>output_flag\<close> is the member
  \<^verbatim>\<open>output\<close>.)
\<close>

record Flags =
  output_flag :: string
  scale_factor :: int
  no_cache :: bool
  origin_center :: bool
  needs_scaling :: bool
  use_opengl :: bool

record Terminal =
  font_width :: int
  font_height :: int

text \<open>
  The fields \<open>max_wpixels\<close> and \<open>max_hpixels\<close> hold what the member functions of these
  names return; \<open>dims_x\<close> and \<open>dims_y\<close> are the members \<^verbatim>\<open>x\<close> and \<^verbatim>\<open>y\<close>.
\<close>

record Dimensions =
  dims_x :: int
  dims_y :: int
  max_wpixels :: int
  max_hpixels :: int
  scaler :: string
  terminal :: Terminal

text \<open>\<^verbatim>\<open>cv::imwrite\<close> returns a flag or raises \<^verbatim>\<open>cv::Exception\<close>.\<close>

datatype imwrite_outcome = Returned bool | Raised

text \<open>
  What the collaborators answer: the decoder (\<^verbatim>\<open>cv::imread\<close> with
  \<^verbatim>\<open>IMREAD_UNCHANGED\<close>), the EXIF reader (\<^verbatim>\<open>util::read_exif_rotation\<close>), the size
  resolver (\<^verbatim>\<open>get_new_sizes\<close>, a member of the base class: it sees the current buffer
  besides its four arguments), the OpenCL context, the resampling of \<^verbatim>\<open>cv::resize\<close>, the
  cache path (\<^verbatim>\<open>util::get_cache_file_save_location\<close>), the encoder (\<^verbatim>\<open>cv::imwrite\<close>) and
  the compile-time switch \<^verbatim>\<open>ENABLE_OPENGL\<close>.
\<close>

record externals =
  imread :: "string \<Rightarrow> mat"
  read_exif_rotation :: "string \<Rightarrow> nat option"
  get_new_sizes :: "mat \<Rightarrow> int \<Rightarrow> int \<Rightarrow> string \<Rightarrow> int \<Rightarrow> int \<times> int"
  ocl_context_available :: bool
  resample :: "bool \<Rightarrow> mat \<Rightarrow> int \<Rightarrow> int \<Rightarrow> pixel list list"
  get_cache_file_save_location :: "string \<Rightarrow> string"
  imwrite :: "string \<Rightarrow> mat \<Rightarrow> imwrite_outcome"
  ENABLE_OPENGL :: bool

text \<open>
  Modelled from the spec: \<^verbatim>\<open>util::round_up\<close> is defined outside this file; the
  specification says it rounds a dimension "up to the nearest multiple of the scale
  factor", a positive integer. For a factor that is not positive the number is returned
  as it is.
\<close>

definition round_up :: "int \<Rightarrow> int \<Rightarrow> int" where
  "round_up num_to_round multiple =
     (if multiple \<le> 0 then num_to_round
      else ((num_to_round + multiple - 1) div multiple) * multiple)"

text \<open>The remainder of C++ on \<^verbatim>\<open>int\<close>: it has the sign of the dividend.\<close>

definition c_rem :: "int \<Rightarrow> int \<Rightarrow> int" where
  "c_rem a b = sgn a * (\<bar>a\<bar> mod \<bar>b\<bar>)"

subsection \<open>The object and its trace\<close>

datatype log_level = Debug | Info | Warn | Err

datatype event =
    Log log_level string
  | CvImread string
  | CvFlip int
  | CvRotate RotateFlags
  | CvCopyTo bool
  | CvResize bool int int
  | CvImwrite string mat
  | CvConvertTo
  | ForEachPremultiply
  | CvCvtColor ColorConversionCodes

record opencv_image =
  path :: string
  dims :: Dimensions
  max_width :: int
  max_height :: int
  in_cache :: bool
  image_mat :: mat
  uimage :: mat
  flags :: Flags
  size_field :: nat
  opencl_available :: bool
  trace :: "event list"

definition emit :: "event \<Rightarrow> opencv_image \<Rightarrow> opencv_image" where
  "emit e s = s\<lparr>trace := trace s @ [e]\<rparr>"

text \<open>The accessors.\<close>

definition width :: "opencv_image \<Rightarrow> int" where
  "width s = int (cols (image_mat s))"

definition height :: "opencv_image \<Rightarrow> int" where
  "height s = int (rows (image_mat s))"

definition size_bytes :: "opencv_image \<Rightarrow> nat" where
  "size_bytes s = size_field s"

definition channels :: "opencv_image \<Rightarrow> nat" where
  "channels s = mchannels (image_mat s)"

subsection \<open>Orientation: OpencvImage::rotate_image\<close>

text \<open>
  The switch over the EXIF orientation; \<^verbatim>\<open>EXIF_ORIENTATION_2\<close> to \<^verbatim>\<open>EXIF_ORIENTATION_8\<close>
  are the enumerators 2 to 8.
\<close>

definition flip_image :: "int \<Rightarrow> opencv_image \<Rightarrow> opencv_image" where
  "flip_image flipCode s = emit (CvFlip flipCode) (s\<lparr>image_mat := cv_flip flipCode (image_mat s)\<rparr>)"

definition rotate_buffer :: "RotateFlags \<Rightarrow> opencv_image \<Rightarrow> opencv_image" where
  "rotate_buffer code s = emit (CvRotate code) (s\<lparr>image_mat := cv_rotate code (image_mat s)\<rparr>)"

definition rotate_image :: "externals \<Rightarrow> opencv_image \<Rightarrow> opencv_image" where
  "rotate_image ext s =
     (case read_exif_rotation ext (path s) of
        None \<Rightarrow> s
      | Some v \<Rightarrow>
          if v = 2 then flip_image 1 s
          else if v = 3 then flip_image (- 1) s
          else if v = 4 then flip_image 0 s
          else if v = 5 then flip_image 1 (rotate_buffer ROTATE_90_CLOCKWISE s)
          else if v = 6 then rotate_buffer ROTATE_90_CLOCKWISE s
          else if v = 7 then flip_image 1 (rotate_buffer ROTATE_90_COUNTERCLOCKWISE s)
          else if v = 8 then rotate_buffer ROTATE_90_COUNTERCLOCKWISE s
          else s)"

subsection \<open>Resizing and the cache: resize_image_helper, resize_image\<close>

text \<open>
  The helper receives a reference to one of the two buffers of the object, the member
  \<^verbatim>\<open>image\<close> or the accelerator-resident \<^verbatim>\<open>uimage\<close>.
\<close>

datatype buffer = Image_member | Uimage_member

fun get_buffer :: "buffer \<Rightarrow> opencv_image \<Rightarrow> mat" where
  "get_buffer Image_member s = image_mat s"
| "get_buffer Uimage_member s = uimage s"

fun set_buffer :: "buffer \<Rightarrow> mat \<Rightarrow> opencv_image \<Rightarrow> opencv_image" where
  "set_buffer Image_member m s = s\<lparr>image_mat := m\<rparr>"
| "set_buffer Uimage_member m s = s\<lparr>uimage := m\<rparr>"

text \<open>
  The statements of the helper after the resize call (lines 179 to 190): the cache write,
  skipped when caching is disabled, with its \<^verbatim>\<open>try\<close> and \<^verbatim>\<open>catch\<close>.
\<close>

definition cache_write :: "externals \<Rightarrow> buffer \<Rightarrow> opencv_image \<Rightarrow> opencv_image" where
  "cache_write ext buf s =
     (if no_cache (flags s) then emit (Log Debug ''Caching is disabled'') s
      else
        let save_location = get_cache_file_save_location ext (path s);
            s3 = emit (CvImwrite save_location (get_buffer buf s)) s
        in case imwrite ext save_location (get_buffer buf s) of
             Returned ok \<Rightarrow> emit (Log Debug ''Saved resized image'') s3
           | Raised \<Rightarrow> emit (Log Err ''Could not save image'') s3)"

text \<open>
  The resize call (line 177) stands before the \<^verbatim>\<open>try\<close> block: its exception leaves the
  helper, and with it \<^verbatim>\<open>resize_image\<close>, \<^verbatim>\<open>process_image\<close> and the constructor.
\<close>

definition resize_image_helper ::
  "externals \<Rightarrow> buffer \<Rightarrow> int \<Rightarrow> int \<Rightarrow> opencv_image \<Rightarrow> exn + opencv_image" where
  "resize_image_helper ext buf new_width new_height s =
     (let s1 = emit (Log Debug ''Resizing image'') s in
      case cv_resize (resample ext) (buf = Uimage_member) new_width new_height
             (get_buffer buf s1) of
        Inl e \<Rightarrow> Inl e
      | Inr m \<Rightarrow>
          Inr (cache_write ext buf
                 (emit (CvResize (buf = Uimage_member) new_width new_height)
                    (set_buffer buf m s1))))"

definition resize_image :: "externals \<Rightarrow> opencv_image \<Rightarrow> exn + opencv_image" where
  "resize_image ext s =
     (if in_cache s then Inr s
      else
        case get_new_sizes ext (image_mat s) (max_width s) (max_height s) (scaler (dims s))
               (scale_factor (flags s)) of
          (new_width, new_height) \<Rightarrow>
            if new_width \<le> 0 \<and> new_height \<le> 0 then
              (if needs_scaling (flags s) then
                 (let curw = width s; curh = height s in
                  if c_rem curw 2 \<noteq> 0 \<or> c_rem curh 2 \<noteq> 0 then
                    resize_image_helper ext Image_member
                      (round_up curw (scale_factor (flags s)))
                      (round_up curh (scale_factor (flags s))) s
                  else Inr s)
               else Inr s)
            else
              (let s1 = s\<lparr>opencl_available := ocl_context_available ext\<rparr> in
               if opencl_available s1 then
                 (let s2 = emit (Log Debug ''OpenCL is available'') s1;
                      s3 = emit (CvCopyTo True) (s2\<lparr>uimage := image_mat s2\<rparr>)
                  in case resize_image_helper ext Uimage_member new_width new_height s3 of
                       Inl e \<Rightarrow> Inl e
                     | Inr s4 \<Rightarrow> Inr (emit (CvCopyTo False) (s4\<lparr>image_mat := uimage s4\<rparr>)))
               else resize_image_helper ext Image_member new_width new_height s1))"

subsection \<open>Origin, depth, alpha and channel order: process_image\<close>

text \<open>
  The body of \<^verbatim>\<open>process_image\<close> is a sequence of blocks; each block is a function here,
  in the order of the source.

  Centring (lines 196 to 201): the image size in font cells is a quotient of two integers,
  halved and rounded down. The quotient of a pixel count and a font size is far from the
  precision limit of a double, so the rational quotient has the same floor. The font
  sizes are positive pixel counts; the source divides by them unguarded.
\<close>

definition center_origin :: "opencv_image \<Rightarrow> opencv_image" where
  "center_origin s =
     (if origin_center (flags s) then
        (let img_width = (of_int (width s) :: rat) / of_int (font_width (terminal (dims s)));
             img_height = (of_int (height s) :: rat) / of_int (font_height (terminal (dims s)))
         in s\<lparr>dims := (dims s)\<lparr>dims_x := dims_x (dims s) - \<lfloor>img_width / 2\<rfloor>,
                                dims_y := dims_y (dims s) - \<lfloor>img_height / 2\<rfloor>\<rparr>\<rparr>)
      else s)"

text \<open>Depth (lines 205 to 208): 16-bit images are scaled to 8 bit with the factor 1/256.\<close>

definition downscale_depth :: "opencv_image \<Rightarrow> opencv_image" where
  "downscale_depth s =
     (if mdepth (image_mat s) = CV_16U then
        (let alpha = 1 / 256 in
         emit CvConvertTo (s\<lparr>image_mat := convertTo_CV_8U alpha (image_mat s)\<rparr>))
      else s)"

text \<open>
  Alpha (lines 210 to 219): the lambda run on every pixel of a 4-channel image. The
  products are computed in \<^verbatim>\<open>int\<close> and stored into an \<^verbatim>\<open>unsigned char\<close>.
\<close>

definition uchar :: "nat \<Rightarrow> nat" where
  "uchar n = n mod 256"

fun premultiply :: "pixel \<Rightarrow> pixel" where
  "premultiply [p0, p1, p2, p3] =
     (let alpha = p3; d = 255 in
      [uchar ((p0 * alpha) div d), uchar ((p1 * alpha) div d), uchar ((p2 * alpha) div d), p3])"

definition forEach :: "(pixel \<Rightarrow> pixel) \<Rightarrow> mat \<Rightarrow> mat" where
  "forEach f m = m\<lparr>mdata := map (map f) (mdata m)\<rparr>"

definition premultiply_alpha :: "opencv_image \<Rightarrow> opencv_image" where
  "premultiply_alpha s =
     (if mchannels (image_mat s) = 4 then
        emit ForEachPremultiply (s\<lparr>image_mat := forEach premultiply (image_mat s)\<rparr>)
      else s)"

text \<open>The flip for OpenGL (lines 221 to 225), compiled in only with \<^verbatim>\<open>ENABLE_OPENGL\<close>.\<close>

definition opengl_flip :: "externals \<Rightarrow> opencv_image \<Rightarrow> opencv_image" where
  "opengl_flip ext s =
     (if ENABLE_OPENGL ext \<and> use_opengl (flags s) then flip_image 0 s else s)"

text \<open>Channels (lines 227 to 247).\<close>

definition cvtColor :: "ColorConversionCodes \<Rightarrow> opencv_image \<Rightarrow> opencv_image" where
  "cvtColor code s = emit (CvCvtColor code) (s\<lparr>image_mat := cv_cvtColor code (image_mat s)\<rparr>)"

definition bgra_trifecta :: "string set" where
  "bgra_trifecta = {''x11'', ''chafa'', ''wayland''}"

definition expand_gray :: "opencv_image \<Rightarrow> opencv_image" where
  "expand_gray s = (if mchannels (image_mat s) = 1 then cvtColor COLOR_GRAY2BGRA s else s)"

definition backend_channels :: "opencv_image \<Rightarrow> opencv_image" where
  "backend_channels s =
     (if output_flag (flags s) \<in> bgra_trifecta then
        (if mchannels (image_mat s) = 3 then cvtColor COLOR_BGR2BGRA s else s)
      else if output_flag (flags s) = ''kitty'' then
        (if mchannels (image_mat s) = 4 then cvtColor COLOR_BGRA2RGBA s
         else cvtColor COLOR_BGR2RGB s)
      else if output_flag (flags s) = ''sixel'' then
        (if mchannels (image_mat s) = 4 then cvtColor COLOR_BGRA2RGB s
         else cvtColor COLOR_BGR2RGB s)
      else s)"

text \<open>The last statement (line 248).\<close>

definition store_size :: "opencv_image \<Rightarrow> opencv_image" where
  "store_size s = s\<lparr>size_field := mat_total (image_mat s) * elemSize (image_mat s)\<rparr>"

definition colorize :: "externals \<Rightarrow> opencv_image \<Rightarrow> opencv_image" where
  "colorize ext s =
     backend_channels (expand_gray (opengl_flip ext (premultiply_alpha (downscale_depth s))))"

definition process_image :: "externals \<Rightarrow> opencv_image \<Rightarrow> exn + opencv_image" where
  "process_image ext s =
     (case resize_image ext s of
        Inl e \<Rightarrow> Inl e
      | Inr r \<Rightarrow> Inr (store_size (colorize ext (center_origin r))))"

subsection \<open>The constructor\<close>

text \<open>
  The constructor raises \<^verbatim>\<open>std::runtime_error("")\<close> when the decoder returns an empty
  buffer: the caller gets the exception and no object. Otherwise it runs
  \<^verbatim>\<open>rotate_image\<close> and \<^verbatim>\<open>process_image\<close>; an exception of \<^verbatim>\<open>process_image\<close> leaves
  the constructor as well.
\<close>

text \<open>The member initialisers and the decoding of the file (lines 41 to 48).\<close>

definition initial_object ::
  "externals \<Rightarrow> Flags \<Rightarrow> Dimensions \<Rightarrow> string \<Rightarrow> bool \<Rightarrow> opencv_image" where
  "initial_object ext flags_instance new_dims filename is_in_cache =
     \<lparr>path = filename, dims = new_dims,
      max_width = max_wpixels new_dims, max_height = max_hpixels new_dims,
      in_cache = is_in_cache, image_mat = imread ext filename, uimage = empty_mat,
      flags = flags_instance, size_field = 0, opencl_available = False,
      trace = [CvImread filename]\<rparr>"

definition OpencvImage ::
  "externals \<Rightarrow> Flags \<Rightarrow> Dimensions \<Rightarrow> string \<Rightarrow> bool \<Rightarrow> exn + opencv_image" where
  "OpencvImage ext flags_instance new_dims filename is_in_cache =
     (let s0 = initial_object ext flags_instance new_dims filename is_in_cache
      in if mat_empty (image_mat s0) then Inl (runtime_error [])
         else
           process_image ext
             (rotate_image ext (emit (Log Info (''loading file '' @ filename)) s0)))"

text \<open>The object the constructor hands to \<^verbatim>\<open>process_image\<close>: decoded, logged, oriented.\<close>

definition oriented_object ::
  "externals \<Rightarrow> Flags \<Rightarrow> Dimensions \<Rightarrow> string \<Rightarrow> bool \<Rightarrow> opencv_image" where
  "oriented_object ext flags_instance new_dims filename is_in_cache =
     rotate_image ext
       (emit (Log Info (''loading file '' @ filename))
          (initial_object ext flags_instance new_dims filename is_in_cache))"

subsection \<open>Normal paths\<close>

text \<open>
  What the helper, \<^verbatim>\<open>resize_image\<close> and \<^verbatim>\<open>process_image\<close> leave behind when the
  resize call returns. These functions serve the proofs: the lemmas \<open>helper_bridge\<close>,
  \<open>resize_image_bridge\<close> and \<open>process_image_bridge\<close> show that a call of the functions
  above either raises \<^verbatim>\<open>cv::Exception\<close> or returns exactly this object.
\<close>

definition resize_buffer_result ::
  "externals \<Rightarrow> buffer \<Rightarrow> int \<Rightarrow> int \<Rightarrow> opencv_image \<Rightarrow> opencv_image" where
  "resize_buffer_result ext buf new_width new_height s =
     emit (CvResize (buf = Uimage_member) new_width new_height)
       (set_buffer buf
          (resized_mat (resample ext) (buf = Uimage_member) new_width new_height (get_buffer buf s)) s)"

definition helper_result ::
  "externals \<Rightarrow> buffer \<Rightarrow> int \<Rightarrow> int \<Rightarrow> opencv_image \<Rightarrow> opencv_image" where
  "helper_result ext buf new_width new_height s =
     (let s1 = emit (Log Debug ''Resizing image'') s;
          s2 = resize_buffer_result ext buf new_width new_height s1
      in cache_write ext buf s2)"

definition resize_result :: "externals \<Rightarrow> opencv_image \<Rightarrow> opencv_image" where
  "resize_result ext s =
     (if in_cache s then s
      else
        case get_new_sizes ext (image_mat s) (max_width s) (max_height s) (scaler (dims s))
               (scale_factor (flags s)) of
          (new_width, new_height) \<Rightarrow>
            if new_width \<le> 0 \<and> new_height \<le> 0 then
              (if needs_scaling (flags s) then
                 (let curw = width s; curh = height s in
                  if c_rem curw 2 \<noteq> 0 \<or> c_rem curh 2 \<noteq> 0 then
                    helper_result ext Image_member
                      (round_up curw (scale_factor (flags s)))
                      (round_up curh (scale_factor (flags s))) s
                  else s)
               else s)
            else
              (let s1 = s\<lparr>opencl_available := ocl_context_available ext\<rparr> in
               if opencl_available s1 then
                 (let s2 = emit (Log Debug ''OpenCL is available'') s1;
                      s3 = emit (CvCopyTo True) (s2\<lparr>uimage := image_mat s2\<rparr>);
                      s4 = helper_result ext Uimage_member new_width new_height s3
                  in emit (CvCopyTo False) (s4\<lparr>image_mat := uimage s4\<rparr>))
               else helper_result ext Image_member new_width new_height s1))"

definition process_result :: "externals \<Rightarrow> opencv_image \<Rightarrow> opencv_image" where
  "process_result ext s = store_size (colorize ext (center_origin (resize_result ext s)))"

text \<open>
  The answer of the size resolver for an object, and the targets that are not degenerate
  in both axes but have a side that is zero or negative.
\<close>

definition resize_target :: "externals \<Rightarrow> opencv_image \<Rightarrow> int \<times> int" where
  "resize_target ext s =
     get_new_sizes ext (image_mat s) (max_width s) (max_height s) (scaler (dims s))
       (scale_factor (flags s))"

definition half_degenerate :: "int \<times> int \<Rightarrow> bool" where
  "half_degenerate target =
     (case target of
        (new_width, new_height) \<Rightarrow>
          \<not> (new_width \<le> 0 \<and> new_height \<le> 0) \<and> (new_width \<le> 0 \<or> new_height \<le> 0))"

subsection \<open>Predicates on events and a concrete run\<close>

definition is_resize :: "event \<Rightarrow> bool" where
  "is_resize e = (case e of CvResize u w h \<Rightarrow> True | _ \<Rightarrow> False)"

text \<open>
  A cache miss on a 101 by 2 image with three channels: the size resolver answers (0, 0),
  the scale factor is 2 and even dimensions are required.
\<close>

definition example_image :: mat where
  "example_image =
     \<lparr>rows = 2, cols = 101, mdepth = CV_8U, mchannels = 3,
      mdata = replicate 2 (replicate 101 [10, 20, 30])\<rparr>"

text \<open>
  Externals for concrete runs: the decoder returns \<open>img\<close>, the EXIF reader \<open>tag\<close>, the
  size resolver \<open>sizes\<close>, a cache write ends as \<open>outcome\<close>; there is no accelerator, and
  resampling repeats the top left pixel.
\<close>

definition ext_of :: "mat \<Rightarrow> nat option \<Rightarrow> int \<times> int \<Rightarrow> imwrite_outcome \<Rightarrow> externals" where
  "ext_of img tag sizes outcome =
     \<lparr>imread = (\<lambda>f. img),
      read_exif_rotation = (\<lambda>f. tag),
      get_new_sizes = (\<lambda>m mw mh sc sf. sizes),
      ocl_context_available = False,
      resample = (\<lambda>u m w h. replicate (nat h) (replicate (nat w) (hd (hd (mdata m))))),
      get_cache_file_save_location = (\<lambda>p. ''/cache/'' @ p),
      imwrite = (\<lambda>p m. outcome),
      ENABLE_OPENGL = False\<rparr>"

definition example_ext :: externals where
  "example_ext = ext_of example_image None (0, 0) (Returned True)"

definition example_flags :: Flags where
  "example_flags =
     \<lparr>output_flag = ''x11'', scale_factor = 2, no_cache = False, origin_center = False,
      needs_scaling = True, use_opengl = False\<rparr>"

definition example_dims :: Dimensions where
  "example_dims =
     \<lparr>dims_x = 5, dims_y = 5, max_wpixels = 800, max_hpixels = 600, scaler = ''contain'',
      terminal = \<lparr>font_width = 8, font_height = 16\<rparr>\<rparr>"

definition example_object :: opencv_image where
  "example_object =
     \<lparr>path = ''a.png'', dims = example_dims, max_width = 800, max_height = 600,
      in_cache = False, image_mat = example_image, uimage = empty_mat, flags = example_flags,
      size_field = 0, opencl_available = False, trace = []\<rparr>"

subsection \<open>The orientation table of the specification\<close>

text \<open>
  The geometric transforms of the table, each given by the coordinates its pixels come
  from: \<open>pixel_at m i j\<close> is the pixel of row \<open>i\<close> and column \<open>j\<close>. A horizontal flip
  mirrors the columns, a vertical flip the rows; a quarter turn exchanges the shape.
\<close>

definition pixel_at :: "mat \<Rightarrow> nat \<Rightarrow> nat \<Rightarrow> pixel" where
  "pixel_at m i j = mdata m ! i ! j"

definition tabulate2 :: "nat \<Rightarrow> nat \<Rightarrow> (nat \<Rightarrow> nat \<Rightarrow> 'a) \<Rightarrow> 'a list list" where
  "tabulate2 h w f = map (\<lambda>i. map (\<lambda>j. f i j) [0..<w]) [0..<h]"

definition horizontal_flip :: "mat \<Rightarrow> mat" where
  "horizontal_flip m =
     m\<lparr>mdata := tabulate2 (rows m) (cols m) (\<lambda>i j. pixel_at m i (cols m - 1 - j))\<rparr>"

definition vertical_flip :: "mat \<Rightarrow> mat" where
  "vertical_flip m =
     m\<lparr>mdata := tabulate2 (rows m) (cols m) (\<lambda>i j. pixel_at m (rows m - 1 - i) j)\<rparr>"

definition flip_both_axes :: "mat \<Rightarrow> mat" where
  "flip_both_axes m =
     m\<lparr>mdata := tabulate2 (rows m) (cols m)
                   (\<lambda>i j. pixel_at m (rows m - 1 - i) (cols m - 1 - j))\<rparr>"

definition rotate_clockwise :: "mat \<Rightarrow> mat" where
  "rotate_clockwise m =
     m\<lparr>rows := cols m, cols := rows m,
       mdata := tabulate2 (cols m) (rows m) (\<lambda>i j. pixel_at m (rows m - 1 - j) i)\<rparr>"

definition rotate_counterclockwise :: "mat \<Rightarrow> mat" where
  "rotate_counterclockwise m =
     m\<lparr>rows := cols m, cols := rows m,
       mdata := tabulate2 (cols m) (rows m) (\<lambda>i j. pixel_at m j (cols m - 1 - i))\<rparr>"

definition orientation_table :: "nat option \<Rightarrow> mat \<Rightarrow> mat" where
  "orientation_table tag m =
     (case tag of
        None \<Rightarrow> m
      | Some v \<Rightarrow>
          if v = 2 then horizontal_flip m
          else if v = 3 then flip_both_axes m
          else if v = 4 then vertical_flip m
          else if v = 5 then horizontal_flip (rotate_clockwise m)
          else if v = 6 then rotate_clockwise m
          else if v = 7 then horizontal_flip (rotate_counterclockwise m)
          else if v = 8 then rotate_counterclockwise m
          else m)"

text \<open>A small grey image, and externals that answer a given orientation tag for it.\<close>

definition gray_2x3 :: mat where
  "gray_2x3 =
     \<lparr>rows = 2, cols = 3, mdepth = CV_8U, mchannels = 1,
      mdata = [[[1], [2], [3]], [[4], [5], [6]]]\<rparr>"

definition exif_ext :: "nat option \<Rightarrow> externals" where
  "exif_ext tag = ext_of gray_2x3 tag (0, 0) Raised"

definition object_of :: "mat \<Rightarrow> Flags \<Rightarrow> Dimensions \<Rightarrow> opencv_image" where
  "object_of m fl d =
     \<lparr>path = ''a.png'', dims = d, max_width = max_wpixels d, max_height = max_hpixels d,
      in_cache = False, image_mat = m, uimage = empty_mat, flags = fl,
      size_field = 0, opencl_available = False, trace = []\<rparr>"

subsection \<open>Observing traces\<close>

text \<open>
  \<open>untraced\<close> forgets the trace of an object; two runs that agree on it agree on every
  member of the object. The predicates pick the events of a kind: a cache write, a step of
  the colorizer (depth conversion, premultiplication, any channel conversion), the
  premultiplication alone. An event is \<open>quiet\<close> when it is neither a cache write nor a
  colorizer step.
\<close>

definition untraced :: "opencv_image \<Rightarrow> opencv_image" where
  "untraced s = s\<lparr>trace := []\<rparr>"

definition is_imwrite :: "event \<Rightarrow> bool" where
  "is_imwrite e = (case e of CvImwrite loc m \<Rightarrow> True | _ \<Rightarrow> False)"

definition is_colorization :: "event \<Rightarrow> bool" where
  "is_colorization e =
     (case e of CvConvertTo \<Rightarrow> True | ForEachPremultiply \<Rightarrow> True | CvCvtColor code \<Rightarrow> True
      | _ \<Rightarrow> False)"

definition quiet :: "event \<Rightarrow> bool" where
  "quiet e = (\<not> is_imwrite e \<and> \<not> is_colorization e)"

definition is_premultiply :: "event \<Rightarrow> bool" where
  "is_premultiply e = (e = ForEachPremultiply)"

text \<open>A single half-transparent pixel, and flags for a given backend.\<close>

definition rgba_1x1 :: mat where
  "rgba_1x1 =
     \<lparr>rows = 1, cols = 1, mdepth = CV_8U, mchannels = 4, mdata = [[[100, 100, 100, 128]]]\<rparr>"

definition flags_of :: "string \<Rightarrow> bool \<Rightarrow> bool \<Rightarrow> Flags" where
  "flags_of backend even_dims centred =
     \<lparr>output_flag = backend, scale_factor = 2, no_cache = False, origin_center = centred,
      needs_scaling = even_dims, use_opengl = False\<rparr>"

subsection \<open>Rounding of the depth conversion\<close>

text \<open>
  The nearest integer to \<open>v / 256\<close>, ties to the even neighbour, in integer arithmetic.
\<close>

definition nearest_256 :: "nat \<Rightarrow> nat" where
  "nearest_256 v =
     (let q = v div 256; r = v mod 256 in
      if r < 128 then q else if 128 < r then q + 1 else if even q then q else q + 1)"

subsection \<open>The channel table of the specification\<close>

text \<open>
  Section 4.5 of the specification, steps 3 and 4, pixel by pixel; a decoded pixel is
  stored in the order blue, green, red (, alpha). A grey pixel is expanded to four channels
  with an opaque alpha. The overlay backends (x11, wayland, chafa) keep that order and add
  an opaque alpha to three channels; kitty exchanges blue and red and keeps the channel
  count; sixel exchanges blue and red and drops the alpha.
\<close>

fun spec_expand_gray :: "pixel \<Rightarrow> pixel" where
  "spec_expand_gray [g] = [g, g, g, 255]"
| "spec_expand_gray p = p"

fun overlay_pixel :: "pixel \<Rightarrow> pixel" where
  "overlay_pixel [b, g, r] = [b, g, r, 255]"
| "overlay_pixel p = p"

fun kitty_pixel :: "pixel \<Rightarrow> pixel" where
  "kitty_pixel [b, g, r, a] = [r, g, b, a]"
| "kitty_pixel [b, g, r] = [r, g, b]"
| "kitty_pixel p = p"

fun sixel_pixel :: "pixel \<Rightarrow> pixel" where
  "sixel_pixel [b, g, r, a] = [r, g, b]"
| "sixel_pixel [b, g, r] = [r, g, b]"
| "sixel_pixel p = p"

definition spec_backend_pixel :: "string \<Rightarrow> pixel \<Rightarrow> pixel" where
  "spec_backend_pixel backend q =
     (if backend \<in> {''x11'', ''wayland'', ''chafa''} then overlay_pixel q
      else if backend = ''kitty'' then kitty_pixel q
      else if backend = ''sixel'' then sixel_pixel q
      else q)"

definition spec_final_pixel :: "string \<Rightarrow> pixel \<Rightarrow> pixel" where
  "spec_final_pixel backend p = spec_backend_pixel backend (spec_expand_gray p)"

definition spec_final_channels :: "string \<Rightarrow> nat \<Rightarrow> nat" where
  "spec_final_channels backend n =
     (let k = (if n = 1 then 4 else n) in
      if backend \<in> {''x11'', ''wayland'', ''chafa''} then 4
      else if backend = ''sixel'' then 3
      else k)"

text \<open>More buffers for concrete runs.\<close>

definition image_80x160 :: mat where
  "image_80x160 =
     \<lparr>rows = 160, cols = 80, mdepth = CV_8U, mchannels = 3,
      mdata = replicate 160 (replicate 80 [0, 0, 0])\<rparr>"

definition gray16 :: "nat \<Rightarrow> mat" where
  "gray16 v = \<lparr>rows = 1, cols = 1, mdepth = CV_16U, mchannels = 1, mdata = [[[v]]]\<rparr>"

definition bgra_2x1 :: mat where
  "bgra_2x1 =
     \<lparr>rows = 1, cols = 2, mdepth = CV_8U, mchannels = 4,
      mdata = [[[1, 2, 3, 255], [4, 5, 6, 0]]]\<rparr>"

definition bgr_2x1 :: mat where
  "bgr_2x1 =
     \<lparr>rows = 1, cols = 2, mdepth = CV_8U, mchannels = 3, mdata = [[[1, 2, 3], [4, 5, 6]]]\<rparr>"

definition gray_2x1 :: mat where
  "gray_2x1 =
     \<lparr>rows = 1, cols = 2, mdepth = CV_8U, mchannels = 1, mdata = [[[7], [9]]]\<rparr>"

section \<open>Properties\<close>

subsection \<open>Frame lemmas\<close>

lemma emit_fields [simp]:
  "trace (emit e s) = trace s @ [e]"
  "image_mat (emit e s) = image_mat s"
  "uimage (emit e s) = uimage s"
  "flags (emit e s) = flags s"
  "dims (emit e s) = dims s"
  "path (emit e s) = path s"
  "in_cache (emit e s) = in_cache s"
  "max_width (emit e s) = max_width s"
  "max_height (emit e s) = max_height s"
  "size_field (emit e s) = size_field s"
  "opencl_available (emit e s) = opencl_available s"
  by (simp_all add: emit_def)

lemma get_set_buffer [simp]:
  "get_buffer buf (set_buffer buf m s) = m"
  "trace (set_buffer buf m s) = trace s"
  "flags (set_buffer buf m s) = flags s"
  "dims (set_buffer buf m s) = dims s"
  "path (set_buffer buf m s) = path s"
  "in_cache (set_buffer buf m s) = in_cache s"
  "size_field (set_buffer buf m s) = size_field s"
  "get_buffer buf (emit e s) = get_buffer buf s"
  by (cases buf; simp)+

subsection \<open>The resize helper\<close>


lemma helper_frame:
  "flags (helper_result ext buf w h s) = flags s"
  "dims (helper_result ext buf w h s) = dims s"
  "path (helper_result ext buf w h s) = path s"
  "in_cache (helper_result ext buf w h s) = in_cache s"
  "size_field (helper_result ext buf w h s) = size_field s"
  by (simp_all add: helper_result_def cache_write_def resize_buffer_result_def Let_def
        split: imwrite_outcome.split)

lemma helper_trace_no_cache:
  "no_cache (flags s) \<Longrightarrow>
   trace (helper_result ext buf w h s) =
     trace s @ [Log Debug ''Resizing image'', CvResize (buf = Uimage_member) w h,
                Log Debug ''Caching is disabled'']"
  by (simp add: helper_result_def cache_write_def resize_buffer_result_def Let_def)

lemma helper_trace_cache:
  "\<not> no_cache (flags s) \<Longrightarrow>
   trace (helper_result ext buf w h s) =
     trace s @ [Log Debug ''Resizing image'', CvResize (buf = Uimage_member) w h,
                CvImwrite (get_cache_file_save_location ext (path s))
                  (resized_mat (resample ext) (buf = Uimage_member) w h (get_buffer buf s)),
                (case imwrite ext (get_cache_file_save_location ext (path s))
                        (resized_mat (resample ext) (buf = Uimage_member) w h (get_buffer buf s)) of
                   Returned ok \<Rightarrow> Log Debug ''Saved resized image''
                 | Raised \<Rightarrow> Log Err ''Could not save image'')]"
  by (simp add: helper_result_def cache_write_def resize_buffer_result_def Let_def split: imwrite_outcome.split)

lemma helper_events:
  "\<exists>cache. trace (helper_result ext buf w h s) =
      trace s @ [Log Debug ''Resizing image'', CvResize (buf = Uimage_member) w h] @ cache \<and>
      filter is_resize cache = []"
  by (cases "no_cache (flags s)")
     (simp_all add: helper_trace_no_cache helper_trace_cache is_resize_def
        split: imwrite_outcome.split)

subsection \<open>Rounding up to even dimensions\<close>


lemma round_up_nonneg: "0 \<le> n \<Longrightarrow> 0 \<le> round_up n k"
  by (simp add: round_up_def pos_imp_zdiv_nonneg_iff)

lemma round_up_multiple:
  assumes "0 < k"
  shows "k dvd round_up n k \<and> n \<le> round_up n k \<and> round_up n k < n + k"
proof -
  let ?q = "(n + k - 1) div k"
  have a: "?q * k = n + k - 1 - (n + k - 1) mod k"
    using div_mult_mod_eq [of "n + k - 1" k] by linarith
  have b: "0 \<le> (n + k - 1) mod k" "(n + k - 1) mod k < k" using assms by simp_all
  have c: "round_up n k = ?q * k" using assms by (simp add: round_up_def)
  have "k dvd round_up n k" unfolding c by simp
  moreover have "n \<le> round_up n k" "round_up n k < n + k" unfolding c a using b by linarith+
  ultimately show ?thesis by simp
qed

lemma round_up_pos: "0 < n \<Longrightarrow> 0 < round_up n k"
proof (cases "0 < k")
  case True
  assume "0 < n"
  with round_up_multiple [OF True, of n] show ?thesis by linarith
next
  case False
  assume "0 < n"
  with False show ?thesis by (simp add: round_up_def)
qed

subsection \<open>Raising and returning\<close>

text \<open>
  A call of the helper raises exactly when the resize call does; otherwise it returns the
  object of the normal path. The same holds for \<^verbatim>\<open>resize_image\<close> and
  \<^verbatim>\<open>process_image\<close>.
\<close>

lemma helper_bridge:
  "resize_image_helper ext buf w h s =
     (if resize_raises (get_buffer buf s) w h then Inl cv_Exception
      else Inr (helper_result ext buf w h s))"
  by (simp add: resize_image_helper_def helper_result_def resize_buffer_result_def
        cv_resize_def Let_def)

lemma resize_image_bridge:
  "resize_image ext s = Inr r \<Longrightarrow> r = resize_result ext s"
  "resize_image ext s = Inl e \<Longrightarrow> e = cv_Exception"
  by (auto simp: resize_image_def resize_result_def helper_bridge Let_def
        split: prod.splits if_splits sum.splits)

lemma resize_image_cases:
  "resize_image ext s =
     (if isl (resize_image ext s) then Inl cv_Exception else Inr (resize_result ext s))"
  by (cases "resize_image ext s") (auto dest: resize_image_bridge)

lemma process_image_cases:
  "process_image ext s =
     (if isl (resize_image ext s) then Inl cv_Exception else Inr (process_result ext s))"
  by (cases "resize_image ext s")
     (auto simp: process_image_def process_result_def dest: resize_image_bridge)

lemma process_image_bridge:
  "process_image ext s = Inr t \<Longrightarrow> t = process_result ext s"
  "process_image ext s = Inr t \<Longrightarrow> resize_image ext s = Inr (resize_result ext s)"
  "process_image ext s = Inl e \<Longrightarrow> e = cv_Exception"
  using process_image_cases [of ext s] resize_image_cases [of ext s]
  by (auto split: if_splits)

lemma resize_image_isl:
  assumes "\<not> mat_empty (image_mat s)"
  shows "isl (resize_image ext s) = (\<not> in_cache s \<and> half_degenerate (resize_target ext s))"
proof -
  obtain nw nh where sz: "get_new_sizes ext (image_mat s) (max_width s) (max_height s)
      (scaler (dims s)) (scale_factor (flags s)) = (nw, nh)"
    by (cases "get_new_sizes ext (image_mat s) (max_width s) (max_height s)
      (scaler (dims s)) (scale_factor (flags s))")
  from assms have pos: "0 < width s" "0 < height s"
    by (simp_all add: mat_empty_def width_def height_def)
  have up: "\<not> resize_raises (image_mat s) (round_up (width s) k) (round_up (height s) k)" for k
    using assms round_up_pos [OF pos(1), of k] round_up_pos [OF pos(2), of k]
    by (simp add: resize_raises_def)
  show ?thesis
  proof (cases "in_cache s")
    case True
    then show ?thesis by (simp add: resize_image_def)
  next
    case miss: False
    show ?thesis
    proof (cases "nw \<le> 0 \<and> nh \<le> 0")
      case True
      with miss sz up show ?thesis
        by (simp add: resize_image_def helper_bridge resize_target_def half_degenerate_def
              Let_def)
    next
      case False
      with miss sz assms show ?thesis
        by (auto simp: resize_image_def helper_bridge resize_target_def half_degenerate_def
              resize_raises_def Let_def)
    qed
  qed
qed








subsection \<open>Orientation\<close>

lemma mat_ok_iff:
  "mat_ok m =
     (length (mdata m) = rows m \<and>
      (\<forall>i<rows m. length (mdata m ! i) = cols m \<and>
         (\<forall>j<cols m. length (mdata m ! i ! j) = mchannels m)))"
  by (auto simp: mat_ok_def list_all_length)

lemma tabulate2_eqI:
  assumes "length d = h" and "\<And>i. i < h \<Longrightarrow> length (d ! i) = w"
    and "\<And>i j. i < h \<Longrightarrow> j < w \<Longrightarrow> d ! i ! j = f i j"
  shows "d = tabulate2 h w f"
  unfolding tabulate2_def using assms
  by (intro nth_equalityI) simp_all

lemma transpose_tabulate2:
  assumes "length d = h" and "0 < h" and "\<And>i. i < h \<Longrightarrow> length (d ! i) = w"
  shows "transpose d = tabulate2 w h (\<lambda>i j. d ! j ! i)"
  using transpose_rectangle [of d w] assms by (auto simp: tabulate2_def)

lemma tabulate2_nth [simp]:
  "i < h \<Longrightarrow> j < w \<Longrightarrow> tabulate2 h w f ! i ! j = f i j"
  "length (tabulate2 h w f) = h"
  "i < h \<Longrightarrow> length (tabulate2 h w f ! i) = w"
  by (simp_all add: tabulate2_def)

lemma cv_flip_horizontal:
  assumes "mat_ok m" "0 < c"
  shows "cv_flip c m = horizontal_flip m"
proof -
  have "map rev (mdata m) = tabulate2 (rows m) (cols m) (\<lambda>i j. pixel_at m i (cols m - 1 - j))"
    using assms(1) by (intro tabulate2_eqI) (simp_all add: mat_ok_iff rev_nth pixel_at_def)
  with assms(2) show ?thesis by (simp add: cv_flip_def horizontal_flip_def)
qed

lemma cv_flip_vertical:
  assumes "mat_ok m"
  shows "cv_flip 0 m = vertical_flip m"
proof -
  have "rev (mdata m) = tabulate2 (rows m) (cols m) (\<lambda>i j. pixel_at m (rows m - 1 - i) j)"
    using assms by (intro tabulate2_eqI) (simp_all add: mat_ok_iff rev_nth pixel_at_def)
  then show ?thesis by (simp add: cv_flip_def vertical_flip_def)
qed

lemma cv_flip_both:
  assumes "mat_ok m" "c < 0"
  shows "cv_flip c m = flip_both_axes m"
proof -
  have "rev (map rev (mdata m)) =
          tabulate2 (rows m) (cols m) (\<lambda>i j. pixel_at m (rows m - 1 - i) (cols m - 1 - j))"
    using assms(1) by (intro tabulate2_eqI) (simp_all add: mat_ok_iff rev_nth pixel_at_def)
  with assms(2) show ?thesis by (simp add: cv_flip_def flip_both_axes_def)
qed

lemma transpose_mat:
  assumes "mat_ok m" "0 < rows m"
  shows "transpose (mdata m) = tabulate2 (cols m) (rows m) (\<lambda>i j. pixel_at m j i)"
  using assms transpose_tabulate2 [of "mdata m" "rows m" "cols m"]
  by (simp add: mat_ok_iff pixel_at_def)

lemma cv_rotate_clockwise:
  assumes "mat_ok m" "0 < rows m"
  shows "cv_rotate ROTATE_90_CLOCKWISE m = rotate_clockwise m"
proof -
  have "map rev (transpose (mdata m)) =
          tabulate2 (cols m) (rows m) (\<lambda>i j. pixel_at m (rows m - 1 - j) i)"
    unfolding transpose_mat [OF assms]
    by (intro tabulate2_eqI) (simp_all add: rev_nth)
  then show ?thesis by (simp add: rotate_clockwise_def)
qed

lemma cv_rotate_counterclockwise:
  assumes "mat_ok m" "0 < rows m"
  shows "cv_rotate ROTATE_90_COUNTERCLOCKWISE m = rotate_counterclockwise m"
proof -
  have "rev (transpose (mdata m)) =
          tabulate2 (cols m) (rows m) (\<lambda>i j. pixel_at m j (cols m - 1 - i))"
    unfolding transpose_mat [OF assms]
    by (intro tabulate2_eqI) (simp_all add: rev_nth)
  then show ?thesis by (simp add: rotate_counterclockwise_def)
qed

lemma mat_ok_rotate:
  assumes "mat_ok m" "0 < rows m"
  shows "mat_ok (rotate_clockwise m)" "mat_ok (rotate_counterclockwise m)"
  using assms
  by (simp_all add: mat_ok_iff rotate_clockwise_def rotate_counterclockwise_def pixel_at_def)

lemma flip_image_fields [simp]:
  "image_mat (flip_image c s) = cv_flip c (image_mat s)"
  "path (flip_image c s) = path s"
  by (simp_all add: flip_image_def)

lemma rotate_buffer_fields [simp]:
  "image_mat (rotate_buffer c s) = cv_rotate c (image_mat s)"
  "path (rotate_buffer c s) = path s"
  by (simp_all add: rotate_buffer_def)

lemma flip_twice: "cv_flip 0 (cv_flip 1 m) = cv_flip (- 1) m"
  by (simp add: cv_flip_def)

text \<open>
  C2. On a well-formed, non-empty buffer \<^verbatim>\<open>rotate_image\<close> applies exactly the transform
  of the table of section 4.1 for the tag the EXIF reader returns (2: horizontal flip,
  3: flip of both axes, 4: vertical flip, 5: quarter turn clockwise then horizontal flip,
  6: quarter turn clockwise, 7: quarter turn counter-clockwise then horizontal flip,
  8: quarter turn counter-clockwise). For an absent tag and for every value below 2 or
  above 8 it leaves the object as it is, trace included. The transform of tag 3 is the
  transform of tag 2 followed by that of tag 4.
\<close>

theorem rotate_image_table:
  assumes ok: "mat_ok (image_mat s)" and nonempty: "\<not> mat_empty (image_mat s)"
  shows "image_mat (rotate_image ext s) =
           orientation_table (read_exif_rotation ext (path s)) (image_mat s) \<and>
         (read_exif_rotation ext (path s) = None \<longrightarrow> rotate_image ext s = s) \<and>
         (\<forall>v. read_exif_rotation ext (path s) = Some v \<and> (v < 2 \<or> 8 < v) \<longrightarrow>
              rotate_image ext s = s) \<and>
         (\<forall>e2 e3 e4.
            read_exif_rotation e2 (path s) = Some 2 \<and>
            read_exif_rotation e3 (path s) = Some 3 \<and>
            read_exif_rotation e4 (path s) = Some 4 \<longrightarrow>
            image_mat (rotate_image e4 (rotate_image e2 s)) = image_mat (rotate_image e3 s))"
proof -
  let ?m = "image_mat s"
  from nonempty have pos: "0 < rows ?m" by (simp add: mat_empty_def)
  note flips = cv_flip_horizontal [of _ 1] cv_flip_vertical cv_flip_both [of _ "- 1"]
  note turns = cv_rotate_clockwise [OF ok pos] cv_rotate_counterclockwise [OF ok pos]
  have table: "image_mat (rotate_image ext s) =
           orientation_table (read_exif_rotation ext (path s)) ?m"
  proof (cases "read_exif_rotation ext (path s)")
    case None
    then show ?thesis by (simp add: rotate_image_def orientation_table_def)
  next
    case (Some v)
    then show ?thesis
      using ok mat_ok_rotate [OF ok pos]
      by (simp add: rotate_image_def orientation_table_def flips turns del: cv_rotate.simps)
  qed
  have absent: "read_exif_rotation ext (path s) = None \<longrightarrow> rotate_image ext s = s"
    by (simp add: rotate_image_def)
  have other: "\<forall>v. read_exif_rotation ext (path s) = Some v \<and> (v < 2 \<or> 8 < v) \<longrightarrow>
              rotate_image ext s = s"
    by (auto simp: rotate_image_def)
  have both: "\<forall>e2 e3 e4.
            read_exif_rotation e2 (path s) = Some 2 \<and>
            read_exif_rotation e3 (path s) = Some 3 \<and>
            read_exif_rotation e4 (path s) = Some 4 \<longrightarrow>
            image_mat (rotate_image e4 (rotate_image e2 s)) = image_mat (rotate_image e3 s)"
    by (simp add: rotate_image_def flip_twice)
  from table absent other both show ?thesis by blast
qed

theorem rotate_image_table_witness:
  "mat_ok gray_2x3 \<and>
   image_mat (rotate_image (exif_ext (Some 6)) (object_of gray_2x3 example_flags example_dims)) =
     \<lparr>rows = 3, cols = 2, mdepth = CV_8U, mchannels = 1,
      mdata = [[[4], [1]], [[5], [2]], [[6], [3]]]\<rparr> \<and>
   image_mat (rotate_image (exif_ext (Some 7)) (object_of gray_2x3 example_flags example_dims)) =
     \<lparr>rows = 3, cols = 2, mdepth = CV_8U, mchannels = 1,
      mdata = [[[6], [3]], [[5], [2]], [[4], [1]]]\<rparr> \<and>
   rotate_image (exif_ext (Some 1)) (object_of gray_2x3 example_flags example_dims) =
     object_of gray_2x3 example_flags example_dims \<and>
   image_mat (rotate_image (exif_ext (Some 4))
       (rotate_image (exif_ext (Some 2)) (object_of gray_2x3 example_flags example_dims))) =
     image_mat (rotate_image (exif_ext (Some 3)) (object_of gray_2x3 example_flags example_dims))"
  using rotate_image_table [of "object_of gray_2x3 example_flags example_dims" "exif_ext (Some 6)"]
    rotate_image_table [of "object_of gray_2x3 example_flags example_dims" "exif_ext (Some 7)"]
    rotate_image_table [of "object_of gray_2x3 example_flags example_dims" "exif_ext (Some 1)"]
  by (simp add: object_of_def gray_2x3_def exif_ext_def ext_of_def mat_ok_def mat_empty_def
        orientation_table_def rotate_clockwise_def rotate_counterclockwise_def
        horizontal_flip_def tabulate2_def pixel_at_def upt_conv_Cons)

subsection \<open>The trace does not feed back into the object\<close>


lemma untraced_emit [simp]: "untraced (emit e s) = untraced s"
  by (simp add: untraced_def emit_def)

lemma untraced_update:
  "untraced (s\<lparr>image_mat := m\<rparr>) = (untraced s)\<lparr>image_mat := m\<rparr>"
  "untraced (s\<lparr>uimage := m\<rparr>) = (untraced s)\<lparr>uimage := m\<rparr>"
  "untraced (s\<lparr>dims := d\<rparr>) = (untraced s)\<lparr>dims := d\<rparr>"
  "untraced (s\<lparr>size_field := n\<rparr>) = (untraced s)\<lparr>size_field := n\<rparr>"
  "untraced (s\<lparr>opencl_available := b\<rparr>) = (untraced s)\<lparr>opencl_available := b\<rparr>"
  by (simp_all add: untraced_def)

lemma untraced_fields [simp]:
  "image_mat (untraced s) = image_mat s"
  "uimage (untraced s) = uimage s"
  "flags (untraced s) = flags s"
  "dims (untraced s) = dims s"
  "path (untraced s) = path s"
  "in_cache (untraced s) = in_cache s"
  "max_width (untraced s) = max_width s"
  "max_height (untraced s) = max_height s"
  "size_field (untraced s) = size_field s"
  "opencl_available (untraced s) = opencl_available s"
  by (simp_all add: untraced_def)




lemma untraced_idem [simp]: "untraced (untraced s) = untraced s"
  by (simp add: untraced_def)


lemma rotate_image_untraced:
  "untraced (rotate_image ext s) = untraced (rotate_image ext (untraced s))"
  by (simp add: rotate_image_def flip_image_def rotate_buffer_def untraced_update
        split: option.split)











text \<open>
  C8. A cache write can fail in two ways: \<^verbatim>\<open>cv::imwrite\<close> raises \<^verbatim>\<open>cv::Exception\<close>, or it
  returns \<^verbatim>\<open>false\<close>. The helper catches the exception and logs the error line. It never
  reads the returned value: after a write that returned \<^verbatim>\<open>false\<close> the trace of the helper
  ends with the debug line of a successful write, and holds no error line. The runs below
  resize the 101 x 2 example image to 102 x 2 with caching enabled; in both the resized
  buffer stays in the object.
\<close>

theorem cache_write_false_return_logged_as_saved:
  "map_sum id trace
     (resize_image_helper (ext_of example_image None (0, 0) (Returned False)) Image_member 102 2
        example_object) =
     Inr [Log Debug ''Resizing image'', CvResize False 102 2,
          CvImwrite ''/cache/a.png''
            \<lparr>rows = 2, cols = 102, mdepth = CV_8U, mchannels = 3,
             mdata = replicate 2 (replicate 102 [10, 20, 30])\<rparr>,
          Log Debug ''Saved resized image''] \<and>
   map_sum id trace
     (resize_image_helper (ext_of example_image None (0, 0) Raised) Image_member 102 2
        example_object) =
     Inr [Log Debug ''Resizing image'', CvResize False 102 2,
          CvImwrite ''/cache/a.png''
            \<lparr>rows = 2, cols = 102, mdepth = CV_8U, mchannels = 3,
             mdata = replicate 2 (replicate 102 [10, 20, 30])\<rparr>,
          Log Err ''Could not save image''] \<and>
   map_sum id image_mat
     (resize_image_helper (ext_of example_image None (0, 0) (Returned False)) Image_member 102 2
        example_object) =
     Inr \<lparr>rows = 2, cols = 102, mdepth = CV_8U, mchannels = 3,
          mdata = replicate 2 (replicate 102 [10, 20, 30])\<rparr>"
  by (simp add: resize_image_helper_def cv_resize_def resize_raises_def mat_empty_def
        resized_mat_def cache_write_def ext_of_def example_object_def example_flags_def
        example_image_def emit_def Let_def)

subsection \<open>The shape of the traces\<close>

lemma quiet_simps [simp]:
  "quiet (Log l msg)" "quiet (CvImread f)" "quiet (CvFlip c)" "quiet (CvRotate r)"
  "quiet (CvCopyTo b)" "quiet (CvResize u w h)" "\<not> quiet (CvImwrite loc m)"
  "\<not> quiet CvConvertTo" "\<not> quiet ForEachPremultiply" "\<not> quiet (CvCvtColor code)"
  by (simp_all add: quiet_def is_imwrite_def is_colorization_def)

lemma is_imwrite_simps [simp]:
  "\<not> is_imwrite (Log l msg)" "\<not> is_imwrite (CvImread f)" "\<not> is_imwrite (CvFlip c)"
  "\<not> is_imwrite (CvRotate r)" "\<not> is_imwrite (CvCopyTo b)" "\<not> is_imwrite (CvResize u w h)"
  "is_imwrite (CvImwrite loc m)" "\<not> is_imwrite CvConvertTo"
  "\<not> is_imwrite ForEachPremultiply" "\<not> is_imwrite (CvCvtColor code)"
  by (simp_all add: is_imwrite_def)

lemma rotate_image_trace:
  "\<exists>es. trace (rotate_image ext s) = trace s @ es \<and> list_all quiet es"
  by (simp add: rotate_image_def flip_image_def rotate_buffer_def split: option.split)

lemma rotate_image_frame:
  "mdepth (image_mat (rotate_image ext s)) = mdepth (image_mat s)"
  "mchannels (image_mat (rotate_image ext s)) = mchannels (image_mat s)"
  by (simp_all add: rotate_image_def flip_image_def rotate_buffer_def cv_flip_def
        split: option.split)

text \<open>The trace of the resize step: either quiet, or one resize followed by one write.\<close>

lemma helper_trace_shape:
  "(no_cache (flags s) \<and>
      (\<exists>es. trace (helper_result ext buf w h s) = trace s @ es \<and> list_all quiet es)) \<or>
   (\<not> no_cache (flags s) \<and>
      (\<exists>msg. trace (helper_result ext buf w h s) =
          trace s @ [Log Debug ''Resizing image''] @
            [CvResize (buf = Uimage_member) w h,
             CvImwrite (get_cache_file_save_location ext (path s))
               (resized_mat (resample ext) (buf = Uimage_member) w h (get_buffer buf s))] @ [msg] \<and>
          quiet msg))"
  by (cases "no_cache (flags s)")
     (simp_all add: helper_trace_no_cache helper_trace_cache split: imwrite_outcome.split)

lemma resize_image_trace:
  "(\<exists>es. trace (resize_result ext s) = trace s @ es \<and> list_all quiet es) \<or>
   (\<exists>pre post u w h.
      trace (resize_result ext s) =
        trace s @ pre @
          [CvResize u w h,
           CvImwrite (get_cache_file_save_location ext (path s))
             (resized_mat (resample ext) u w h (image_mat s))] @ post \<and>
      list_all quiet pre \<and> list_all quiet post \<and>
      (resize_raises (image_mat s) w h \<longrightarrow> isl (resize_image ext s)))"
proof -
  obtain nw nh where sz: "get_new_sizes ext (image_mat s) (max_width s) (max_height s)
      (scaler (dims s)) (scale_factor (flags s)) = (nw, nh)"
    by (cases "get_new_sizes ext (image_mat s) (max_width s) (max_height s)
      (scaler (dims s)) (scale_factor (flags s))")
  let ?quiet = "\<exists>es. trace (resize_result ext s) = trace s @ es \<and> list_all quiet es"
  let ?wrote = "\<exists>pre post u w h.
      trace (resize_result ext s) =
        trace s @ pre @
          [CvResize u w h,
           CvImwrite (get_cache_file_save_location ext (path s))
             (resized_mat (resample ext) u w h (image_mat s))] @ post \<and>
      list_all quiet pre \<and> list_all quiet post \<and>
      (resize_raises (image_mat s) w h \<longrightarrow> isl (resize_image ext s))"
  have direct: "?quiet \<or> ?wrote"
    if "resize_result ext s = helper_result ext Image_member w h s'"
      and "resize_image ext s = resize_image_helper ext Image_member w h s'"
      and "trace s' = trace s" "flags s' = flags s" "path s' = path s"
      and "image_mat s' = image_mat s" for w h s'
  proof -
    have raised: "resize_raises (image_mat s) w h \<longrightarrow> isl (resize_image ext s)"
      by (simp add: that(2) helper_bridge that(6))
    from helper_trace_shape [of s' ext Image_member w h] show ?thesis
    proof (elim disjE conjE exE)
      fix es assume "trace (helper_result ext Image_member w h s') = trace s' @ es"
        "list_all quiet es"
      then show ?thesis using that by auto
    next
      fix msg
      assume "trace (helper_result ext Image_member w h s') =
          trace s' @ [Log Debug ''Resizing image''] @
            [CvResize (Image_member = Uimage_member) w h,
             CvImwrite (get_cache_file_save_location ext (path s'))
               (resized_mat (resample ext) (Image_member = Uimage_member) w h
                  (get_buffer Image_member s'))] @ [msg]"
        and "quiet msg"
      then have "trace (resize_result ext s) =
          trace s @ [Log Debug ''Resizing image''] @
            [CvResize False w h,
             CvImwrite (get_cache_file_save_location ext (path s))
               (resized_mat (resample ext) False w h (image_mat s))] @ [msg] \<and>
          list_all quiet [Log Debug ''Resizing image''] \<and> list_all quiet [msg]"
        using that by simp
      with raised have ?wrote by blast
      then show ?thesis ..
    qed
  qed
  show ?thesis
  proof (cases "in_cache s")
    case True
    then have "trace (resize_result ext s) = trace s @ [] \<and> list_all quiet []"
      by (simp add: resize_result_def)
    then show ?thesis by blast
  next
    case miss: False
    show ?thesis
    proof (cases "nw \<le> 0 \<and> nh \<le> 0")
      case degenerate: True
      show ?thesis
      proof (cases "needs_scaling (flags s) \<and>
                    (c_rem (width s) 2 \<noteq> 0 \<or> c_rem (height s) 2 \<noteq> 0)")
        case True
        with miss sz degenerate
        have a: "resize_result ext s = helper_result ext Image_member
                (round_up (width s) (scale_factor (flags s)))
                (round_up (height s) (scale_factor (flags s))) s"
          by (simp add: resize_result_def Let_def)
        from True miss sz degenerate
        have b: "resize_image ext s = resize_image_helper ext Image_member
                (round_up (width s) (scale_factor (flags s)))
                (round_up (height s) (scale_factor (flags s))) s"
          by (simp add: resize_image_def Let_def)
        show ?thesis by (rule direct [OF a b]) simp_all
      next
        case False
        with miss sz degenerate
        have "trace (resize_result ext s) = trace s @ [] \<and> list_all quiet []"
          by (auto simp: resize_result_def Let_def)
        then show ?thesis by blast
      qed
    next
      case sized: False
      show ?thesis
      proof (cases "ocl_context_available ext")
        case False
        with miss sz sized
        have a: "resize_result ext s =
                helper_result ext Image_member nw nh (s\<lparr>opencl_available := False\<rparr>)"
          by (auto simp: resize_result_def Let_def)
        from False miss sz sized
        have b: "resize_image ext s =
                resize_image_helper ext Image_member nw nh (s\<lparr>opencl_available := False\<rparr>)"
          by (auto simp: resize_image_def Let_def)
        show ?thesis by (rule direct [OF a b]) simp_all
      next
        case True
        let ?s3 = "emit (CvCopyTo True)
                    ((emit (Log Debug ''OpenCL is available'')
                       (s\<lparr>opencl_available := True\<rparr>))\<lparr>uimage := image_mat s\<rparr>)"
        let ?s4 = "helper_result ext Uimage_member nw nh ?s3"
        from True miss sz sized
        have r: "resize_result ext s = emit (CvCopyTo False) (?s4\<lparr>image_mat := uimage ?s4\<rparr>)"
          by (auto simp: resize_result_def Let_def)
        from True miss sz sized
        have "resize_image ext s =
                (case resize_image_helper ext Uimage_member nw nh ?s3 of
                   Inl e \<Rightarrow> Inl e
                 | Inr s4 \<Rightarrow> Inr (emit (CvCopyTo False) (s4\<lparr>image_mat := uimage s4\<rparr>)))"
          by (auto simp: resize_image_def Let_def)
        then have raised: "resize_raises (image_mat s) nw nh \<longrightarrow> isl (resize_image ext s)"
          by (simp add: helper_bridge)
        have t3: "trace ?s3 = trace s @ [Log Debug ''OpenCL is available'', CvCopyTo True]"
          by simp
        from helper_trace_shape [of ?s3 ext Uimage_member nw nh] show ?thesis
        proof (elim disjE conjE exE)
          fix es assume "trace ?s4 = trace ?s3 @ es" "list_all quiet es"
          then have "trace (resize_result ext s) =
              trace s @ ([Log Debug ''OpenCL is available'', CvCopyTo True] @ es @ [CvCopyTo False]) \<and>
              list_all quiet ([Log Debug ''OpenCL is available'', CvCopyTo True] @ es @ [CvCopyTo False])"
            by (simp add: r)
          then have ?quiet by blast
          then show ?thesis ..
        next
          fix msg
          assume "trace ?s4 =
            trace ?s3 @ [Log Debug ''Resizing image''] @
            [CvResize (Uimage_member = Uimage_member) nw nh,
             CvImwrite (get_cache_file_save_location ext (path ?s3))
               (resized_mat (resample ext) (Uimage_member = Uimage_member) nw nh
                  (get_buffer Uimage_member ?s3))] @ [msg]"
            and "quiet msg"
          then have "trace (resize_result ext s) =
              trace s @ [Log Debug ''OpenCL is available'', CvCopyTo True, Log Debug ''Resizing image''] @
                [CvResize True nw nh,
                 CvImwrite (get_cache_file_save_location ext (path s))
                   (resized_mat (resample ext) True nw nh (image_mat s))] @ [msg, CvCopyTo False] \<and>
              list_all quiet [Log Debug ''OpenCL is available'', CvCopyTo True, Log Debug ''Resizing image''] \<and>
              list_all quiet [msg, CvCopyTo False]"
            by (simp add: r)
          with raised have ?wrote by blast
          then show ?thesis ..
        qed
      qed
    qed
  qed
qed

lemma center_origin_trace [simp]: "trace (center_origin s) = trace s"
  by (simp add: center_origin_def Let_def)

lemma center_origin_image [simp]: "image_mat (center_origin s) = image_mat s"
  by (simp add: center_origin_def Let_def)

lemma store_size_fields [simp]:
  "trace (store_size s) = trace s" "image_mat (store_size s) = image_mat s"
  "dims (store_size s) = dims s"
  by (simp_all add: store_size_def)

lemma downscale_depth_trace:
  "\<exists>es. trace (downscale_depth s) = trace s @ es \<and>
        list_all (\<lambda>e. \<not> is_imwrite e \<and> \<not> is_premultiply e) es"
  by (simp add: downscale_depth_def Let_def is_premultiply_def)

lemma premultiply_alpha_trace:
  "\<exists>es. trace (premultiply_alpha s) = trace s @ es \<and>
        list_all (\<lambda>e. \<not> is_imwrite e) es \<and> length es \<le> 1"
  by (simp add: premultiply_alpha_def)

lemma opengl_flip_trace:
  "\<exists>es. trace (opengl_flip ext s) = trace s @ es \<and>
        list_all (\<lambda>e. \<not> is_imwrite e \<and> \<not> is_premultiply e) es"
  by (simp add: opengl_flip_def flip_image_def is_premultiply_def)

lemma expand_gray_trace:
  "\<exists>es. trace (expand_gray s) = trace s @ es \<and>
        list_all (\<lambda>e. \<not> is_imwrite e \<and> \<not> is_premultiply e) es"
  by (simp add: expand_gray_def cvtColor_def is_premultiply_def)

lemma backend_channels_trace:
  "\<exists>es. trace (backend_channels s) = trace s @ es \<and>
        list_all (\<lambda>e. \<not> is_imwrite e \<and> \<not> is_premultiply e) es"
  by (simp add: backend_channels_def cvtColor_def is_premultiply_def)

lemma plain_events:
  assumes "list_all (\<lambda>e. \<not> is_imwrite e \<and> \<not> is_premultiply e) es"
  shows "list_all (\<lambda>e. \<not> is_imwrite e) es" and "filter is_premultiply es = []"
  using assms by (induction es) auto

lemma colorize_trace:
  "\<exists>es. trace (colorize ext s) = trace s @ es \<and> list_all (\<lambda>e. \<not> is_imwrite e) es \<and>
        length (filter is_premultiply es) \<le> 1"
proof -
  let ?a = "downscale_depth s"
  let ?b = "premultiply_alpha ?a"
  let ?c = "opengl_flip ext ?b"
  let ?d = "expand_gray ?c"
  obtain e1 where e1: "trace ?a = trace s @ e1"
      "list_all (\<lambda>e. \<not> is_imwrite e \<and> \<not> is_premultiply e) e1"
    using downscale_depth_trace by blast
  obtain e2 where e2: "trace ?b = trace ?a @ e2" "list_all (\<lambda>e. \<not> is_imwrite e) e2"
      "length e2 \<le> 1"
    using premultiply_alpha_trace by blast
  obtain e3 where e3: "trace ?c = trace ?b @ e3"
      "list_all (\<lambda>e. \<not> is_imwrite e \<and> \<not> is_premultiply e) e3"
    using opengl_flip_trace by blast
  obtain e4 where e4: "trace ?d = trace ?c @ e4"
      "list_all (\<lambda>e. \<not> is_imwrite e \<and> \<not> is_premultiply e) e4"
    using expand_gray_trace by blast
  obtain e5 where e5: "trace (backend_channels ?d) = trace ?d @ e5"
      "list_all (\<lambda>e. \<not> is_imwrite e \<and> \<not> is_premultiply e) e5"
    using backend_channels_trace by blast
  have t: "trace (colorize ext s) = trace s @ (e1 @ e2 @ e3 @ e4 @ e5)"
    by (simp add: colorize_def e1 e2 e3 e4 e5)
  have w: "list_all (\<lambda>e. \<not> is_imwrite e) (e1 @ e2 @ e3 @ e4 @ e5)"
    using plain_events(1) [OF e1(2)] e2(2) plain_events(1) [OF e3(2)]
      plain_events(1) [OF e4(2)] plain_events(1) [OF e5(2)] by simp
  have "length (filter is_premultiply e2) \<le> 1"
    using length_filter_le e2(3) by (rule order_trans)
  then have p: "length (filter is_premultiply (e1 @ e2 @ e3 @ e4 @ e5)) \<le> 1"
    by (simp add: plain_events(2) [OF e1(2)] plain_events(2) [OF e3(2)]
          plain_events(2) [OF e4(2)] plain_events(2) [OF e5(2)])
  from t w p show ?thesis by blast
qed

lemma quiet_not_premultiply: "list_all quiet es \<Longrightarrow> filter is_premultiply es = []"
  by (induction es) (auto simp: is_premultiply_def)

lemma quiet_not_imwrite: "list_all quiet es \<Longrightarrow> list_all (\<lambda>e. \<not> is_imwrite e) es"
  by (induction es) (auto simp: quiet_def)

text \<open>The constructor: when it raises, and the object it returns otherwise.\<close>

lemma rotate_image_empty:
  "mat_empty (image_mat (rotate_image ext s)) = mat_empty (image_mat s)"
  by (auto simp add: rotate_image_def flip_image_def rotate_buffer_def cv_flip_def
        mat_empty_def split: option.split)

lemma oriented_object_members:
  "mat_empty (image_mat (oriented_object ext fl d f c)) = mat_empty (imread ext f)"
  "in_cache (oriented_object ext fl d f c) = c"
proof -
  show "mat_empty (image_mat (oriented_object ext fl d f c)) = mat_empty (imread ext f)"
    by (simp add: oriented_object_def rotate_image_empty initial_object_def)
  show "in_cache (oriented_object ext fl d f c) = c"
    by (simp add: oriented_object_def initial_object_def rotate_image_def flip_image_def
          rotate_buffer_def split: option.split)
qed

lemma constructor_process:
  "OpencvImage ext fl d f c =
     (if mat_empty (imread ext f) then Inl LoadError
      else process_image ext (oriented_object ext fl d f c))"
  by (simp add: OpencvImage_def oriented_object_def initial_object_def LoadError_def Let_def)

lemma constructor_cases:
  "OpencvImage ext fl d f c =
     (if mat_empty (imread ext f) then Inl LoadError
      else if \<not> c \<and> half_degenerate (resize_target ext (oriented_object ext fl d f c))
      then Inl cv_Exception
      else Inr (process_result ext (oriented_object ext fl d f c)))"
proof (cases "mat_empty (imread ext f)")
  case True
  then show ?thesis by (simp add: constructor_process)
next
  case False
  then have "\<not> mat_empty (image_mat (oriented_object ext fl d f c))"
    by (simp add: oriented_object_members)
  from resize_image_isl [OF this, of ext] False show ?thesis
    by (simp add: constructor_process process_image_cases oriented_object_members)
qed

lemma constructor_Inr:
  assumes "OpencvImage ext fl d f c = Inr s"
  shows "s = process_result ext (oriented_object ext fl d f c)"
    and "\<not> mat_empty (imread ext f)"
    and "resize_image ext (oriented_object ext fl d f c) =
           Inr (resize_result ext (oriented_object ext fl d f c))"
proof -
  from assms show ne: "\<not> mat_empty (imread ext f)"
    by (auto simp: constructor_process split: if_splits)
  with assms have p: "process_image ext (oriented_object ext fl d f c) = Inr s"
    by (simp add: constructor_process)
  from process_image_bridge(1) [OF p]
  show "s = process_result ext (oriented_object ext fl d f c)" .
  from process_image_bridge(2) [OF p]
  show "resize_image ext (oriented_object ext fl d f c) =
           Inr (resize_result ext (oriented_object ext fl d f c))" .
qed

text \<open>The trace of a whole construction.\<close>

lemma oriented_object_quiet: "list_all quiet (trace (oriented_object ext fl d f c))"
proof -
  let ?s0 = "emit (Log Info (''loading file '' @ f)) (initial_object ext fl d f c)"
  obtain rs where rs: "trace (rotate_image ext ?s0) = trace ?s0 @ rs" "list_all quiet rs"
    using rotate_image_trace [of ext ?s0] by blast
  have "list_all quiet (trace ?s0)" by (simp add: initial_object_def)
  then show ?thesis unfolding oriented_object_def rs(1) using rs(2) by simp
qed

lemma oriented_object_frame:
  "mdepth (image_mat (oriented_object ext fl d f c)) = mdepth (imread ext f)"
  "mchannels (image_mat (oriented_object ext fl d f c)) = mchannels (imread ext f)"
  "path (oriented_object ext fl d f c) = f"
proof -
  show "mdepth (image_mat (oriented_object ext fl d f c)) = mdepth (imread ext f)"
    "mchannels (image_mat (oriented_object ext fl d f c)) = mchannels (imread ext f)"
    by (simp_all add: oriented_object_def rotate_image_frame initial_object_def)
  show "path (oriented_object ext fl d f c) = f"
    by (simp add: oriented_object_def initial_object_def rotate_image_def flip_image_def
          rotate_buffer_def split: option.split)
qed

lemma constructor_trace:
  assumes "OpencvImage ext fl d f c = Inr s"
  shows "\<exists>es. trace s = trace (resize_result ext (oriented_object ext fl d f c)) @ es \<and>
           list_all (\<lambda>e. \<not> is_imwrite e) es \<and> length (filter is_premultiply es) \<le> 1"
proof -
  let ?s1 = "oriented_object ext fl d f c"
  obtain es where es: "trace (colorize ext (center_origin (resize_result ext ?s1))) =
      trace (resize_result ext ?s1) @ es" "list_all (\<lambda>e. \<not> is_imwrite e) es"
      "length (filter is_premultiply es) \<le> 1"
    using colorize_trace [of ext "center_origin (resize_result ext ?s1)"] by auto
  have "trace s = trace (resize_result ext ?s1) @ es"
    by (simp add: constructor_Inr(1) [OF assms] process_result_def es)
  with es show ?thesis by blast
qed

text \<open>
  C10. In every run of the constructor that yields an object, every cache write found in
  the trace stands immediately after the library resize call; before that pair there is no
  other cache write and no step of the colorizer (no depth conversion, no
  premultiplication, no channel conversion), and after it there is no further cache write.
  The buffer written is what the library resize returned for the orientation-corrected
  decoded buffer: it has the depth and the channel count the decoder returned.
\<close>

theorem cache_write_before_colorization:
  assumes made: "OpencvImage ext fl d f c = Inr s"
    and written: "CvImwrite loc m \<in> set (trace s)"
  shows "\<exists>before after u w h.
           trace s = before @ [CvResize u w h, CvImwrite loc m] @ after \<and>
           list_all (\<lambda>e. \<not> is_imwrite e \<and> \<not> is_colorization e) before \<and>
           list_all (\<lambda>e. \<not> is_imwrite e) after \<and>
           cv_resize (resample ext) u w h (image_mat (oriented_object ext fl d f c)) = Inr m \<and>
           mdepth m = mdepth (imread ext f) \<and> mchannels m = mchannels (imread ext f)"
proof -
  let ?s1 = "oriented_object ext fl d f c"
  note q1 = oriented_object_quiet [of ext fl d f c]
  from constructor_trace [OF made] obtain es where
    t: "trace s = trace (resize_result ext ?s1) @ es" and
    es: "list_all (\<lambda>e. \<not> is_imwrite e) es"
    by blast
  have returned: "\<not> isl (resize_image ext ?s1)"
    by (simp add: constructor_Inr(3) [OF made])
  have no_es: "CvImwrite loc m \<notin> set es"
    using es by (auto simp: list_all_iff)
  have no_q: "CvImwrite loc m \<notin> set qs" if "list_all quiet qs" for qs
    using that by (auto simp: list_all_iff)
  note frame = oriented_object_frame [of ext fl d f c]
  from resize_image_trace [of ext ?s1] show ?thesis
  proof (elim disjE exE conjE)
    fix qs assume "trace (resize_result ext ?s1) = trace ?s1 @ qs" "list_all quiet qs"
    with written t no_es no_q [OF q1] no_q [of qs] have False by auto
    then show ?thesis ..
  next
    fix pre post u w h
    let ?m = "resized_mat (resample ext) u w h (image_mat ?s1)"
    let ?loc = "get_cache_file_save_location ext (path ?s1)"
    assume r: "trace (resize_result ext ?s1) =
        trace ?s1 @ pre @ [CvResize u w h, CvImwrite ?loc ?m] @ post"
      and pre: "list_all quiet pre" and post: "list_all quiet post"
      and raised: "resize_raises (image_mat ?s1) w h \<longrightarrow> isl (resize_image ext ?s1)"
    from written t r no_es no_q [OF q1] no_q [OF pre] no_q [OF post]
    have same: "loc = ?loc" "m = ?m" by auto
    from raised returned have "cv_resize (resample ext) u w h (image_mat ?s1) = Inr ?m"
      by (auto simp: cv_resize_def)
    then have call: "cv_resize (resample ext) u w h (image_mat ?s1) = Inr m"
      by (simp add: same(2))
    have "trace s = (trace ?s1 @ pre) @ [CvResize u w h, CvImwrite loc m] @ (post @ es)"
      unfolding t r same by simp
    moreover have "list_all (\<lambda>e. \<not> is_imwrite e \<and> \<not> is_colorization e) (trace ?s1 @ pre)"
      using q1 pre by (simp add: quiet_def [abs_def])
    moreover have "list_all (\<lambda>e. \<not> is_imwrite e) (post @ es)"
      using quiet_not_imwrite [OF post] es by simp
    moreover have "mdepth m = mdepth (imread ext f)" "mchannels m = mchannels (imread ext f)"
      by (simp_all add: same resized_mat_def frame)
    ultimately show ?thesis using call by blast
  qed
qed

theorem cache_write_before_colorization_witness:
  "case OpencvImage example_ext (flags_of ''sixel'' True False) example_dims ''a.png'' False of
     Inl e \<Rightarrow> False
   | Inr s \<Rightarrow>
       trace s =
         [CvImread ''a.png'', Log Info ''loading file a.png'', Log Debug ''Resizing image'']
         @ [CvResize False 102 2,
            CvImwrite ''/cache/a.png''
              \<lparr>rows = 2, cols = 102, mdepth = CV_8U, mchannels = 3,
               mdata = replicate 2 (replicate 102 [10, 20, 30])\<rparr>]
         @ [Log Debug ''Saved resized image'', CvCvtColor COLOR_BGR2RGB]"
proof -
  let ?r = "OpencvImage example_ext (flags_of ''sixel'' True False) example_dims ''a.png'' False"
  let ?m = "\<lparr>rows = 2, cols = 102, mdepth = CV_8U, mchannels = 3,
               mdata = replicate 2 (replicate 102 [10, 20, 30])\<rparr>"
  obtain s where s: "?r = Inr s"
    by (simp add: constructor_cases resize_target_def half_degenerate_def example_ext_def
          ext_of_def example_image_def mat_empty_def)
  have t: "trace s =
         [CvImread ''a.png'', Log Info ''loading file a.png'', Log Debug ''Resizing image'',
          CvResize False 102 2, CvImwrite ''/cache/a.png'' ?m,
          Log Debug ''Saved resized image'', CvCvtColor COLOR_BGR2RGB]"
    using s
    by (auto simp add: constructor_cases resize_target_def half_degenerate_def
          oriented_object_def initial_object_def example_ext_def ext_of_def
          example_image_def example_dims_def flags_of_def mat_empty_def Let_def
          rotate_image_def process_result_def resize_result_def width_def height_def c_rem_def
          round_up_def helper_result_def cache_write_def resize_buffer_result_def resized_mat_def
          center_origin_def colorize_def downscale_depth_def premultiply_alpha_def
          opengl_flip_def expand_gray_def backend_channels_def bgra_trifecta_def cvtColor_def
          store_size_def emit_def)
  then have "CvImwrite ''/cache/a.png'' ?m \<in> set (trace s)" by simp
  from cache_write_before_colorization [OF s this] t show ?thesis
    by (simp add: s)
qed

lemma uchar_product:
  assumes "b < 256" and "a < 256"
  shows "uchar ((b * a) div 255) = (b * a) div 255"
proof -
  have "b * a \<le> 255 * 255" using assms by (intro mult_le_mono) simp_all
  then have "(b * a) div 255 \<le> (255 * 255) div 255" by (rule div_le_mono)
  then show ?thesis by (simp add: uchar_def)
qed

text \<open>
  C3. The premultiplication replaces each of the three colour channels of a pixel by
  (channel * alpha) / 255 in integer division and keeps the alpha channel. There is a
  well-formed 4-channel buffer on which applying it twice differs from applying it once,
  and the trace of every constructed object holds at most one premultiplication.
\<close>

theorem premultiply_not_idempotent_once_per_load:
  "(\<forall>b g r a. b < 256 \<and> g < 256 \<and> r < 256 \<and> a < 256 \<longrightarrow>
        premultiply [b, g, r, a] = [(b * a) div 255, (g * a) div 255, (r * a) div 255, a]) \<and>
   (\<exists>m. mchannels m = 4 \<and> mat_ok m \<and>
        forEach premultiply (forEach premultiply m) \<noteq> forEach premultiply m) \<and>
   (\<forall>ext fl d f c s. OpencvImage ext fl d f c = Inr s \<longrightarrow>
        length (filter is_premultiply (trace s)) \<le> 1)"
proof (intro conjI)
  show "\<forall>b g r a. b < 256 \<and> g < 256 \<and> r < 256 \<and> a < 256 \<longrightarrow>
        premultiply [b, g, r, a] = [(b * a) div 255, (g * a) div 255, (r * a) div 255, a]"
    by (simp add: uchar_product)
next
  let ?m = "\<lparr>rows = 1, cols = 1, mdepth = CV_8U, mchannels = 4, mdata = [[[100, 100, 100, 128]]]\<rparr>"
  have "mchannels ?m = 4 \<and> mat_ok ?m \<and>
        forEach premultiply (forEach premultiply ?m) \<noteq> forEach premultiply ?m"
    by (simp add: forEach_def mat_ok_def uchar_def)
  then show "\<exists>m. mchannels m = 4 \<and> mat_ok m \<and>
        forEach premultiply (forEach premultiply m) \<noteq> forEach premultiply m"
    by blast
next
  show "\<forall>ext fl d f c s. OpencvImage ext fl d f c = Inr s \<longrightarrow>
        length (filter is_premultiply (trace s)) \<le> 1"
  proof (intro allI impI)
    fix ext fl d f c s
    assume made: "OpencvImage ext fl d f c = Inr s"
    let ?s1 = "oriented_object ext fl d f c"
    note q1 = oriented_object_quiet [of ext fl d f c]
    from constructor_trace [OF made] obtain es where
      t: "trace s = trace (resize_result ext ?s1) @ es" and
      es: "length (filter is_premultiply es) \<le> 1"
      by blast
    have "filter is_premultiply (trace (resize_result ext ?s1)) = []"
      using resize_image_trace [of ext ?s1] quiet_not_premultiply [OF q1]
      by (elim disjE exE conjE) (simp_all add: quiet_not_premultiply is_premultiply_def)
    then show "length (filter is_premultiply (trace s)) \<le> 1"
      using es by (simp add: t)
  qed
qed

theorem premultiply_not_idempotent_once_per_load_witness:
  "case OpencvImage (ext_of rgba_1x1 None (0, 0) Raised) (flags_of ''kitty'' False False)
          example_dims ''a.png'' False of
     Inl e \<Rightarrow> False
   | Inr s \<Rightarrow> length (filter is_premultiply (trace s)) \<le> 1 \<and>
             mdata (image_mat s) = [[[50, 50, 50, 128]]]"
proof -
  let ?r = "OpencvImage (ext_of rgba_1x1 None (0, 0) Raised) (flags_of ''kitty'' False False)
          example_dims ''a.png'' False"
  obtain s where s: "?r = Inr s"
    by (simp add: constructor_cases resize_target_def half_degenerate_def ext_of_def
          rgba_1x1_def mat_empty_def)
  have "mdata (image_mat s) = [[[50, 50, 50, 128]]]"
    using s
    by (auto simp add: constructor_cases resize_target_def half_degenerate_def
          oriented_object_def initial_object_def ext_of_def rgba_1x1_def
          example_dims_def flags_of_def mat_empty_def Let_def
          rotate_image_def process_result_def resize_result_def width_def height_def
          center_origin_def colorize_def downscale_depth_def premultiply_alpha_def
          opengl_flip_def expand_gray_def backend_channels_def bgra_trifecta_def cvtColor_def
          cv_cvtColor_def forEach_def uchar_def store_size_def emit_def)
  with premultiply_not_idempotent_once_per_load s show ?thesis by simp
qed

subsection \<open>Construction and the stored size\<close>












lemma colorize_depth: "mdepth (image_mat (colorize ext s)) = CV_8U"
proof -
  have a: "mdepth (image_mat (downscale_depth s)) = CV_8U"
    by (cases "mdepth (image_mat s)") (simp_all add: downscale_depth_def convertTo_CV_8U_def)
  have b: "mdepth (image_mat (premultiply_alpha t)) = mdepth (image_mat t)" for t
    by (simp add: premultiply_alpha_def forEach_def)
  have c: "mdepth (image_mat (opengl_flip ext t)) = mdepth (image_mat t)" for t
    by (simp add: opengl_flip_def cv_flip_def)
  have d: "mdepth (image_mat (expand_gray t)) = mdepth (image_mat t)" for t
    by (simp add: expand_gray_def cvtColor_def cv_cvtColor_def)
  have e: "mdepth (image_mat (backend_channels t)) = mdepth (image_mat t)" for t
    by (simp add: backend_channels_def cvtColor_def cv_cvtColor_def)
  show ?thesis by (simp add: colorize_def a b c d e)
qed

lemma colorize_frame:
  "size_field (colorize ext s) = size_field s"
  "dims (colorize ext s) = dims s"
  "flags (colorize ext s) = flags s"
proof -
  have a: "size_field (downscale_depth t) = size_field t" "dims (downscale_depth t) = dims t"
    "flags (downscale_depth t) = flags t" for t
    by (simp_all add: downscale_depth_def Let_def)
  have b: "size_field (premultiply_alpha t) = size_field t"
    "dims (premultiply_alpha t) = dims t" "flags (premultiply_alpha t) = flags t" for t
    by (simp_all add: premultiply_alpha_def)
  have c: "size_field (opengl_flip ext t) = size_field t" "dims (opengl_flip ext t) = dims t"
    "flags (opengl_flip ext t) = flags t" for t
    by (simp_all add: opengl_flip_def flip_image_def)
  have d: "size_field (expand_gray t) = size_field t" "dims (expand_gray t) = dims t"
    "flags (expand_gray t) = flags t" for t
    by (simp_all add: expand_gray_def cvtColor_def)
  have e: "size_field (backend_channels t) = size_field t"
    "dims (backend_channels t) = dims t" "flags (backend_channels t) = flags t" for t
    by (simp_all add: backend_channels_def cvtColor_def)
  show "size_field (colorize ext s) = size_field s" "dims (colorize ext s) = dims s"
    "flags (colorize ext s) = flags s"
    by (simp_all add: colorize_def a b c d e)
qed

lemma resize_image_frame:
  "size_field (resize_result ext s) = size_field s"
  "dims (resize_result ext s) = dims s"
  "flags (resize_result ext s) = flags s"
  by (simp_all add: resize_result_def Let_def helper_frame split: prod.split)

lemma size_field_untouched:
  "size_field (colorize ext (center_origin (resize_result ext (oriented_object ext fl d f c)))) = 0"
proof -
  have o: "size_field (oriented_object ext fl d f c) = 0"
    by (simp add: oriented_object_def initial_object_def rotate_image_def flip_image_def
          rotate_buffer_def split: option.split)
  have c: "size_field (center_origin t) = size_field t" for t
    by (simp add: center_origin_def Let_def)
  show ?thesis by (simp add: o c colorize_frame resize_image_frame)
qed

text \<open>
  C9. For every constructed object the size accessor returns width times height times
  bytes per pixel, the bytes per pixel being the channel count times the bytes of the
  depth of the final buffer. The final depth is 8 bit, so the size is width times height
  times channel count. The size is stored by the last statement of \<^verbatim>\<open>process_image\<close>,
  after the resize step has returned and the colorizer has run: the object before that
  statement still holds the initial value.
\<close>

theorem size_is_buffer_size:
  assumes "OpencvImage ext fl d f c = Inr s"
  shows "size_bytes s =
           nat (width s) * nat (height s) * (channels s * elemSize1 (mdepth (image_mat s))) \<and>
         mdepth (image_mat s) = CV_8U \<and>
         size_bytes s = nat (width s) * nat (height s) * channels s \<and>
         (\<exists>r. resize_image ext (oriented_object ext fl d f c) = Inr r \<and>
              s = store_size (colorize ext (center_origin r)) \<and>
              size_field (colorize ext (center_origin r)) = 0)"
proof -
  let ?r = "resize_result ext (oriented_object ext fl d f c)"
  let ?t = "colorize ext (center_origin ?r)"
  have s: "s = store_size ?t"
    using constructor_Inr(1) [OF assms] by (simp add: process_result_def)
  have dp: "mdepth (image_mat s) = CV_8U"
    by (simp add: s colorize_depth)
  have "size_bytes s = mat_total (image_mat s) * elemSize (image_mat s)"
    by (simp add: s size_bytes_def store_size_def)
  then have sz: "size_bytes s =
      nat (width s) * nat (height s) * (channels s * elemSize1 (mdepth (image_mat s)))"
    by (simp add: mat_total_def elemSize_def width_def height_def channels_def mult.commute)
  with dp have sz8: "size_bytes s = nat (width s) * nat (height s) * channels s" by simp
  from constructor_Inr(3) [OF assms] s size_field_untouched [of ext fl d f c]
  have "\<exists>r. resize_image ext (oriented_object ext fl d f c) = Inr r \<and>
              s = store_size (colorize ext (center_origin r)) \<and>
              size_field (colorize ext (center_origin r)) = 0"
    by blast
  with sz dp sz8 show ?thesis by blast
qed

theorem size_is_buffer_size_witness:
  "case OpencvImage example_ext example_flags example_dims ''a.png'' False of
     Inl e \<Rightarrow> False
   | Inr s \<Rightarrow> width s = 102 \<and> height s = 2 \<and> channels s = 4 \<and> size_bytes s = 816"
proof -
  let ?r = "OpencvImage example_ext example_flags example_dims ''a.png'' False"
  obtain s where s: "?r = Inr s"
    by (simp add: constructor_cases resize_target_def half_degenerate_def example_ext_def
          ext_of_def example_image_def mat_empty_def)
  have "width s = 102 \<and> height s = 2 \<and> channels s = 4"
    using s
    by (auto simp add: constructor_cases resize_target_def half_degenerate_def
          oriented_object_def initial_object_def example_ext_def ext_of_def
          example_image_def example_dims_def example_flags_def mat_empty_def Let_def
          rotate_image_def process_result_def resize_result_def width_def height_def c_rem_def
          round_up_def helper_result_def cache_write_def resize_buffer_result_def resized_mat_def
          center_origin_def colorize_def downscale_depth_def premultiply_alpha_def
          opengl_flip_def expand_gray_def backend_channels_def bgra_trifecta_def cvtColor_def
          cv_cvtColor_def channels_def store_size_def emit_def)
  moreover from size_is_buffer_size [OF s]
  have "size_bytes s = nat (width s) * nat (height s) * channels s" by blast
  ultimately show ?thesis by (simp add: s)
qed

subsection \<open>Origin centring and depth conversion\<close>

lemma floor_half_cells:
  assumes "0 < b"
  shows "\<lfloor>(of_int a / of_int b :: rat) / 2\<rfloor> = a div (2 * b)"
proof -
  have "(of_int a / of_int b :: rat) / 2 = of_int a / of_int (2 * b)" by simp
  then show ?thesis by (simp only: floor_divide_of_int_eq)
qed

lemma center_origin_dims:
  "origin_center (flags s) \<Longrightarrow>
   dims (center_origin s) =
     (dims s)\<lparr>dims_x := dims_x (dims s) -
                  \<lfloor>(of_int (width s) / of_int (font_width (terminal (dims s))) :: rat) / 2\<rfloor>,
              dims_y := dims_y (dims s) -
                  \<lfloor>(of_int (height s) / of_int (font_height (terminal (dims s))) :: rat) / 2\<rfloor>\<rparr>"
  by (simp add: center_origin_def Let_def)

text \<open>
  C6. When centring is requested (and the font cell sizes are positive) and the resize
  step returns, \<^verbatim>\<open>process_image\<close> returns an object whose origin is decremented by the
  floor of half the image size in font cells: x by the floor of (width / font width) / 2,
  y by the floor of (height / font height) / 2, which are width div (2 * font width) and
  height div (2 * font height). The width and the height are those the resize step leaves,
  and the colorizer does not touch the dimensions. With font cells of 8 by 16, an image of
  80 by 160 and the origin (5, 5) the new origin is (0, 0).
\<close>

theorem origin_centering:
  assumes centred: "origin_center (flags s)"
    and fw: "0 < font_width (terminal (dims s))"
    and fh: "0 < font_height (terminal (dims s))"
    and resized: "resize_image ext s = Inr r"
  shows "\<exists>t. process_image ext s = Inr t \<and>
           dims_x (dims t) =
             dims_x (dims s) -
               \<lfloor>(of_int (width r) / of_int (font_width (terminal (dims s))) :: rat) / 2\<rfloor> \<and>
           dims_y (dims t) =
             dims_y (dims s) -
               \<lfloor>(of_int (height r) / of_int (font_height (terminal (dims s))) :: rat) / 2\<rfloor> \<and>
           dims_x (dims t) = dims_x (dims s) - width r div (2 * font_width (terminal (dims s))) \<and>
           dims_y (dims t) = dims_y (dims s) - height r div (2 * font_height (terminal (dims s))) \<and>
           dims t = dims (center_origin r) \<and>
           terminal (dims t) = terminal (dims s)"
proof -
  let ?t = "store_size (colorize ext (center_origin r))"
  have r: "r = resize_result ext s"
    using resized by (rule resize_image_bridge(1))
  have ret: "process_image ext s = Inr ?t"
    by (simp add: process_image_def resized)
  have p: "dims ?t = dims (center_origin r)"
    by (simp add: colorize_frame)
  have c: "origin_center (flags r)" "dims r = dims s"
    using centred by (simp_all add: r resize_image_frame)
  note d = center_origin_dims [OF c(1), unfolded c(2)]
  have "dims_x (dims ?t) =
             dims_x (dims s) -
               \<lfloor>(of_int (width r) / of_int (font_width (terminal (dims s))) :: rat) / 2\<rfloor> \<and>
           dims_y (dims ?t) =
             dims_y (dims s) -
               \<lfloor>(of_int (height r) / of_int (font_height (terminal (dims s))) :: rat) / 2\<rfloor> \<and>
           dims_x (dims ?t) = dims_x (dims s) - width r div (2 * font_width (terminal (dims s))) \<and>
           dims_y (dims ?t) = dims_y (dims s) - height r div (2 * font_height (terminal (dims s))) \<and>
           dims ?t = dims (center_origin r) \<and>
           terminal (dims ?t) = terminal (dims s)"
    unfolding p d using floor_half_cells [OF fw] floor_half_cells [OF fh] by simp
  with ret show ?thesis by blast
qed

theorem origin_centering_witness:
  "case process_image (ext_of image_80x160 None (0, 0) Raised)
          (object_of image_80x160 (flags_of ''x11'' False True) example_dims) of
     Inl e \<Rightarrow> False
   | Inr t \<Rightarrow> dims_x (dims t) = 0 \<and> dims_y (dims t) = 0"
proof -
  let ?ext = "ext_of image_80x160 None (0, 0) Raised"
  let ?s = "object_of image_80x160 (flags_of ''x11'' False True) example_dims"
  have centred: "origin_center (flags ?s)"
    by (simp add: object_of_def flags_of_def)
  have fw: "0 < font_width (terminal (dims ?s))" and fh: "0 < font_height (terminal (dims ?s))"
    by (simp_all add: object_of_def example_dims_def)
  have resized: "resize_image ?ext ?s = Inr ?s"
    by (simp add: resize_image_def object_of_def flags_of_def ext_of_def)
  from origin_centering [OF centred fw fh resized] obtain t where
    t: "process_image ?ext ?s = Inr t"
      "dims_x (dims t) = dims_x (dims ?s) - width ?s div (2 * font_width (terminal (dims ?s)))"
      "dims_y (dims t) = dims_y (dims ?s) - height ?s div (2 * font_height (terminal (dims ?s)))"
    by blast
  have "dims_x (dims t) = 0 \<and> dims_y (dims t) = 0"
    unfolding t(2,3)
    by (simp add: object_of_def example_dims_def image_80x160_def width_def height_def)
  then show ?thesis by (simp add: t(1))
qed

lemma cvRound_256: "cvRound (of_nat v * (1 / 256)) = int (nearest_256 v)"
proof -
  let ?q = "v div 256" and ?r = "v mod 256"
  have v: "(of_nat v :: rat) = 256 * of_nat ?q + of_nat ?r"
    by (metis mult_div_mod_eq of_nat_add of_nat_mult of_nat_numeral)
  have "?r < 256" by simp
  then have r: "(of_nat ?r :: rat) < 256" by (metis of_nat_less_iff of_nat_numeral)
  have f: "\<lfloor>(of_nat v :: rat) * (1 / 256)\<rfloor> = int ?q"
  proof (rule floor_unique)
    show "of_int (int ?q) \<le> (of_nat v :: rat) * (1 / 256)" unfolding v by simp
    show "(of_nat v :: rat) * (1 / 256) < of_int (int ?q) + 1" unfolding v using r by simp
  qed
  have d: "(of_nat v :: rat) * (1 / 256) - of_int (int ?q) = of_nat ?r / 256"
    unfolding v by (simp add: field_simps)
  have lt: "((of_nat ?r :: rat) / 256 < 1 / 2) = (?r < 128)"
  proof -
    have "((of_nat ?r :: rat) / 256 < 1 / 2) = ((of_nat ?r :: rat) < of_nat 128)" by simp
    then show ?thesis by (simp only: of_nat_less_iff)
  qed
  have gt: "(1 / 2 < (of_nat ?r :: rat) / 256) = (128 < ?r)"
  proof -
    have "(1 / 2 < (of_nat ?r :: rat) / 256) = ((of_nat 128 :: rat) < of_nat ?r)" by simp
    then show ?thesis by (simp only: of_nat_less_iff)
  qed
  show ?thesis
    unfolding cvRound_def f d Let_def lt gt nearest_256_def by simp
qed

lemma convert_value_256: "convert_value (1 / 256) v = min 255 (nearest_256 v)"
  unfolding convert_value_def cvRound_256 by (simp add: saturate_uchar_def)

text \<open>
  C4, as the code has it. A 16-bit image is converted to 8 bit with the factor 1/256: every
  element \<open>v\<close> becomes the integer nearest to \<open>v / 256\<close> (ties to the even neighbour),
  clipped to 255. The result never exceeds 255, and for the largest 16-bit value 65535 it
  is exactly 255: the rounding gives 256, the clipping 255; nothing wraps around.
\<close>

theorem downscale_rounds_and_saturates:
  "(mdepth (image_mat s) = CV_16U \<longrightarrow>
      image_mat (downscale_depth s) =
        (image_mat s)\<lparr>mdepth := CV_8U,
                      mdata := map (map (map (convert_value (1 / 256)))) (mdata (image_mat s))\<rparr>) \<and>
   convert_value (1 / 256) v = min 255 (nearest_256 v) \<and>
   convert_value (1 / 256) v \<le> 255 \<and>
   convert_value (1 / 256) 65535 = 255"
proof -
  have "convert_value (1 / 256) 65535 = 255"
    unfolding convert_value_256 by (simp add: nearest_256_def)
  then show ?thesis
    by (simp add: convert_value_256 downscale_depth_def convertTo_CV_8U_def)
qed

theorem downscale_rounds_and_saturates_witness:
  "image_mat (downscale_depth (object_of (gray16 65535) example_flags example_dims)) =
     \<lparr>rows = 1, cols = 1, mdepth = CV_8U, mchannels = 1, mdata = [[[255]]]\<rparr> \<and>
   convert_value (1 / 256) 65407 = 255 \<and>
   convert_value (1 / 256) 384 = 2 \<and>
   convert_value (1 / 256) 128 = 0"
  using downscale_rounds_and_saturates [of "object_of (gray16 65535) example_flags example_dims" 65535]
    downscale_rounds_and_saturates [of "object_of (gray16 65535) example_flags example_dims" 65407]
    downscale_rounds_and_saturates [of "object_of (gray16 65535) example_flags example_dims" 384]
    downscale_rounds_and_saturates [of "object_of (gray16 65535) example_flags example_dims" 128]
  by (simp add: object_of_def gray16_def nearest_256_def)

text \<open>
  The claim as written says that the conversion truncates. The 16-bit value 255 becomes 1,
  where truncation of 255 / 256 gives 0.
\<close>

theorem downscale_truncation_counterexample:
  "mdata (image_mat (downscale_depth (object_of (gray16 255) example_flags example_dims))) =
     [[[1]]] \<and> (255 :: nat) div 256 = 0"
  by (simp add: object_of_def gray16_def downscale_depth_def convertTo_CV_8U_def
        convert_value_256 nearest_256_def Let_def)

subsection \<open>Channel conversion\<close>

lemma map_pixels_cong:
  assumes "mat_ok m" and "\<And>p. length p = mchannels m \<Longrightarrow> f p = g p"
  shows "map (map f) (mdata m) = map (map g) (mdata m)"
  using assms by (auto simp: mat_ok_def list_all_iff)

lemma pixel_shapes:
  "length p = 1 \<Longrightarrow> \<exists>g. p = [g]"
  "length p = 3 \<Longrightarrow> \<exists>b g r. p = [b, g, r]"
  "length p = 4 \<Longrightarrow> \<exists>b g r a. p = [b, g, r, a]"
  by (auto simp: length_Suc_conv numeral_eq_Suc)

lemma cvtColor_image [simp]:
  "image_mat (cvtColor code s) = cv_cvtColor code (image_mat s)"
  "flags (cvtColor code s) = flags s"
  by (simp_all add: cvtColor_def)

lemma gray_pixels:
  assumes "mat_ok m" "mchannels m = 1"
  shows "map (map (cvt_pixel COLOR_GRAY2BGRA 255)) (mdata m) =
         map (map spec_expand_gray) (mdata m)"
proof (rule map_pixels_cong [OF assms(1)])
  fix p :: pixel assume "length p = mchannels m"
  with assms(2) obtain g where "p = [g]" using pixel_shapes(1) by auto
  then show "cvt_pixel COLOR_GRAY2BGRA 255 p = spec_expand_gray p" by simp
qed

lemma bgr_pixels:
  assumes "mat_ok m" "mchannels m = 3"
  shows "map (map (cvt_pixel COLOR_BGR2BGRA 255)) (mdata m) = map (map overlay_pixel) (mdata m)"
    and "map (map (cvt_pixel COLOR_BGR2RGB a)) (mdata m) = map (map kitty_pixel) (mdata m)"
    and "map (map (cvt_pixel COLOR_BGR2RGB a)) (mdata m) = map (map sixel_pixel) (mdata m)"
    and "map (map spec_expand_gray) (mdata m) = mdata m"
    and "map (map kitty_pixel) (mdata m) = map (map sixel_pixel) (mdata m)"
proof -
  have shape: "\<exists>b g r. p = [b, g, r]" if "length p = mchannels m" for p :: pixel
    using that assms(2) pixel_shapes(2) by auto
  show "map (map (cvt_pixel COLOR_BGR2BGRA 255)) (mdata m) = map (map overlay_pixel) (mdata m)"
    by (rule map_pixels_cong [OF assms(1)]) (auto dest!: shape)
  show "map (map (cvt_pixel COLOR_BGR2RGB a)) (mdata m) = map (map kitty_pixel) (mdata m)"
    by (rule map_pixels_cong [OF assms(1)]) (auto dest!: shape)
  show "map (map (cvt_pixel COLOR_BGR2RGB a)) (mdata m) = map (map sixel_pixel) (mdata m)"
    by (rule map_pixels_cong [OF assms(1)]) (auto dest!: shape)
  have "map (map spec_expand_gray) (mdata m) = map (map (\<lambda>p. p)) (mdata m)"
    by (rule map_pixels_cong [OF assms(1)]) (auto dest!: shape)
  then show "map (map spec_expand_gray) (mdata m) = mdata m" by simp
  show "map (map kitty_pixel) (mdata m) = map (map sixel_pixel) (mdata m)"
    by (rule map_pixels_cong [OF assms(1)]) (auto dest!: shape)
qed

lemma bgra_pixels:
  assumes "mat_ok m" "mchannels m = 4"
  shows "map (map overlay_pixel) (mdata m) = mdata m"
    and "map (map (cvt_pixel COLOR_BGRA2RGBA a)) (mdata m) = map (map kitty_pixel) (mdata m)"
    and "map (map (cvt_pixel COLOR_BGRA2RGB a)) (mdata m) = map (map sixel_pixel) (mdata m)"
    and "map (map spec_expand_gray) (mdata m) = mdata m"
proof -
  have shape: "\<exists>b g r al. p = [b, g, r, al]" if "length p = mchannels m" for p :: pixel
    using that assms(2) pixel_shapes(3) by auto
  have "map (map overlay_pixel) (mdata m) = map (map (\<lambda>p. p)) (mdata m)"
    by (rule map_pixels_cong [OF assms(1)]) (auto dest!: shape)
  then show "map (map overlay_pixel) (mdata m) = mdata m" by simp
  show "map (map (cvt_pixel COLOR_BGRA2RGBA a)) (mdata m) = map (map kitty_pixel) (mdata m)"
    by (rule map_pixels_cong [OF assms(1)]) (auto dest!: shape)
  show "map (map (cvt_pixel COLOR_BGRA2RGB a)) (mdata m) = map (map sixel_pixel) (mdata m)"
    by (rule map_pixels_cong [OF assms(1)]) (auto dest!: shape)
  have "map (map spec_expand_gray) (mdata m) = map (map (\<lambda>p. p)) (mdata m)"
    by (rule map_pixels_cong [OF assms(1)]) (auto dest!: shape)
  then show "map (map spec_expand_gray) (mdata m) = mdata m" by simp
qed

lemma mat_ok_expanded:
  assumes "mat_ok m" "mchannels m = 1"
  shows "mat_ok (m\<lparr>mchannels := 4, mdata := map (map spec_expand_gray) (mdata m)\<rparr>)"
proof -
  have "length (spec_expand_gray p) = 4" if "length p = 1" for p :: pixel
    using pixel_shapes(1) [OF that] by auto
  with assms show ?thesis by (auto simp: mat_ok_def list_all_iff)
qed

lemma expand_gray_spec:
  assumes ok: "mat_ok (image_mat s)" and depth: "mdepth (image_mat s) = CV_8U"
    and chans: "mchannels (image_mat s) \<in> {1, 3, 4}"
  shows "image_mat (expand_gray s) =
           (image_mat s)\<lparr>mchannels := (if mchannels (image_mat s) = 1 then 4
                                         else mchannels (image_mat s)),
                         mdata := map (map spec_expand_gray) (mdata (image_mat s))\<rparr>"
    and "mat_ok (image_mat (expand_gray s))"
    and "flags (expand_gray s) = flags s"
    and "mdepth (image_mat (expand_gray s)) = CV_8U"
proof -
  let ?m = "image_mat s"
  show eq: "image_mat (expand_gray s) =
           ?m\<lparr>mchannels := (if mchannels ?m = 1 then 4 else mchannels ?m),
               mdata := map (map spec_expand_gray) (mdata ?m)\<rparr>"
  proof (cases "mchannels ?m = 1")
    case True
    then show ?thesis
      by (simp add: expand_gray_def cv_cvtColor_def depth gray_pixels [OF ok True])
  next
    case False
    with chans have "mchannels ?m = 3 \<or> mchannels ?m = 4" by simp
    then have "map (map spec_expand_gray) (mdata ?m) = mdata ?m"
      using bgr_pixels(4) [OF ok] bgra_pixels(4) [OF ok] by blast
    with False show ?thesis by (simp add: expand_gray_def)
  qed
  show "mat_ok (image_mat (expand_gray s))"
  proof (cases "mchannels ?m = 1")
    case True
    with mat_ok_expanded [OF ok True] show ?thesis by (simp add: eq)
  next
    case False
    then show ?thesis using ok by (simp add: expand_gray_def)
  qed
  show "flags (expand_gray s) = flags s" by (simp add: expand_gray_def)
  show "mdepth (image_mat (expand_gray s)) = CV_8U" by (simp add: eq depth)
qed

lemma backend_channels_spec:
  assumes ok: "mat_ok (image_mat s)" and depth: "mdepth (image_mat s) = CV_8U"
    and chans: "mchannels (image_mat s) = 3 \<or> mchannels (image_mat s) = 4"
    and backend: "output_flag (flags s) \<in> {''x11'', ''wayland'', ''chafa'', ''kitty'', ''sixel''}"
  shows "image_mat (backend_channels s) =
           (image_mat s)\<lparr>mchannels := spec_final_channels (output_flag (flags s))
                                         (mchannels (image_mat s)),
                         mdata := map (map (spec_backend_pixel (output_flag (flags s))))
                                    (mdata (image_mat s))\<rparr>"
proof -
  let ?m = "image_mat s"
  from chans show ?thesis
  proof
    assume three: "mchannels ?m = 3"
    note px = bgr_pixels [OF ok three]
    from backend show ?thesis
      by (auto simp: backend_channels_def bgra_trifecta_def cv_cvtColor_def depth three
            spec_final_channels_def spec_backend_pixel_def [abs_def] px(1) px(2) px(5))
  next
    assume four: "mchannels ?m = 4"
    note px = bgra_pixels [OF ok four]
    from backend show ?thesis
      by (auto simp: backend_channels_def bgra_trifecta_def cv_cvtColor_def depth four
            spec_final_channels_def spec_backend_pixel_def [abs_def] px(1) px(2) px(3))
  qed
qed

lemma colorize_channels:
  assumes chans: "mchannels (image_mat s) \<in> {1, 3, 4}"
    and backend: "output_flag (flags s) \<in> {''x11'', ''wayland'', ''chafa'', ''kitty'', ''sixel''}"
  shows "mchannels (image_mat (colorize ext s)) =
           spec_final_channels (output_flag (flags s)) (mchannels (image_mat s))"
proof -
  let ?t = "opengl_flip ext (premultiply_alpha (downscale_depth s))"
  have a: "mchannels (image_mat (downscale_depth u)) = mchannels (image_mat u)"
    "flags (downscale_depth u) = flags u" for u
    by (simp_all add: downscale_depth_def convertTo_CV_8U_def Let_def)
  have b: "mchannels (image_mat (premultiply_alpha u)) = mchannels (image_mat u)"
    "flags (premultiply_alpha u) = flags u" for u
    by (simp_all add: premultiply_alpha_def forEach_def)
  have c: "mchannels (image_mat (opengl_flip ext u)) = mchannels (image_mat u)"
    "flags (opengl_flip ext u) = flags u" for u
    by (simp_all add: opengl_flip_def flip_image_def cv_flip_def)
  have t: "mchannels (image_mat ?t) = mchannels (image_mat s)" "flags ?t = flags s"
    by (simp_all add: a b c)
  have "mchannels (image_mat (backend_channels (expand_gray ?t))) =
          spec_final_channels (output_flag (flags ?t)) (mchannels (image_mat ?t))"
    using chans backend unfolding t
    by (auto simp: expand_gray_def backend_channels_def bgra_trifecta_def cv_cvtColor_def
          spec_final_channels_def t)
  then show ?thesis by (simp add: colorize_def t)
qed

text \<open>
  C5. For every well-formed 8-bit buffer of 1, 3 or 4 channels and each of the backends
  x11, wayland, chafa, kitty and sixel, the channel block of \<^verbatim>\<open>process_image\<close> (grey
  expansion, then the conversion for the backend) yields the channel count and, pixel by
  pixel, the channel order of the table: four channels in the stored order with an opaque
  alpha added to three channels for x11, wayland and chafa; red, green, blue, alpha for
  four channels and red, green, blue for three channels on kitty; red, green, blue with
  the alpha dropped on sixel; a grey pixel first becomes (g, g, g, 255). The whole
  colorizer leaves that channel count.
\<close>

theorem backend_channel_matrix:
  assumes ok: "mat_ok (image_mat s)" and depth: "mdepth (image_mat s) = CV_8U"
    and chans: "mchannels (image_mat s) \<in> {1, 3, 4}"
    and backend: "output_flag (flags s) \<in> {''x11'', ''wayland'', ''chafa'', ''kitty'', ''sixel''}"
  shows "image_mat (backend_channels (expand_gray s)) =
           (image_mat s)\<lparr>mchannels := spec_final_channels (output_flag (flags s))
                                         (mchannels (image_mat s)),
                         mdata := map (map (spec_final_pixel (output_flag (flags s))))
                                    (mdata (image_mat s))\<rparr> \<and>
         channels (colorize ext s) =
           spec_final_channels (output_flag (flags s)) (mchannels (image_mat s))"
proof -
  let ?t = "expand_gray s"
  note e = expand_gray_spec [OF ok depth chans]
  have k: "mchannels (image_mat ?t) = 3 \<or> mchannels (image_mat ?t) = 4"
    using chans by (auto simp: e(1))
  have b: "output_flag (flags ?t) \<in> {''x11'', ''wayland'', ''chafa'', ''kitty'', ''sixel''}"
    using backend by (simp add: e(3))
  have fc: "spec_final_channels (output_flag (flags s)) (mchannels (image_mat ?t)) =
            spec_final_channels (output_flag (flags s)) (mchannels (image_mat s))"
    using chans by (auto simp: e(1) spec_final_channels_def)
  have "image_mat (backend_channels ?t) =
          (image_mat ?t)\<lparr>mchannels := spec_final_channels (output_flag (flags s))
                                         (mchannels (image_mat s)),
                         mdata := map (map (spec_backend_pixel (output_flag (flags s))))
                                    (mdata (image_mat ?t))\<rparr>"
    using backend_channels_spec [OF e(2) e(4) k b] by (simp add: e(3) fc)
  then have "image_mat (backend_channels (expand_gray s)) =
           (image_mat s)\<lparr>mchannels := spec_final_channels (output_flag (flags s))
                                         (mchannels (image_mat s)),
                         mdata := map (map (spec_final_pixel (output_flag (flags s))))
                                    (mdata (image_mat s))\<rparr>"
    by (simp add: e(1) spec_final_pixel_def [abs_def] comp_def)
  then show ?thesis
    using colorize_channels [OF chans backend, of ext] by (simp add: channels_def)
qed

theorem backend_channel_matrix_witness:
  "image_mat (backend_channels (expand_gray (object_of bgra_2x1 (flags_of ''sixel'' False False) example_dims))) =
     \<lparr>rows = 1, cols = 2, mdepth = CV_8U, mchannels = 3, mdata = [[[3, 2, 1], [6, 5, 4]]]\<rparr> \<and>
   image_mat (backend_channels (expand_gray (object_of bgra_2x1 (flags_of ''kitty'' False False) example_dims))) =
     \<lparr>rows = 1, cols = 2, mdepth = CV_8U, mchannels = 4,
      mdata = [[[3, 2, 1, 255], [6, 5, 4, 0]]]\<rparr> \<and>
   image_mat (backend_channels (expand_gray (object_of bgr_2x1 (flags_of ''x11'' False False) example_dims))) =
     \<lparr>rows = 1, cols = 2, mdepth = CV_8U, mchannels = 4,
      mdata = [[[1, 2, 3, 255], [4, 5, 6, 255]]]\<rparr> \<and>
   image_mat (backend_channels (expand_gray (object_of bgr_2x1 (flags_of ''kitty'' False False) example_dims))) =
     \<lparr>rows = 1, cols = 2, mdepth = CV_8U, mchannels = 3, mdata = [[[3, 2, 1], [6, 5, 4]]]\<rparr> \<and>
   image_mat (backend_channels (expand_gray (object_of gray_2x1 (flags_of ''chafa'' False False) example_dims))) =
     \<lparr>rows = 1, cols = 2, mdepth = CV_8U, mchannels = 4,
      mdata = [[[7, 7, 7, 255], [9, 9, 9, 255]]]\<rparr> \<and>
   image_mat (backend_channels (expand_gray (object_of gray_2x1 (flags_of ''sixel'' False False) example_dims))) =
     \<lparr>rows = 1, cols = 2, mdepth = CV_8U, mchannels = 3, mdata = [[[7, 7, 7], [9, 9, 9]]]\<rparr>"
  using backend_channel_matrix [of "object_of bgra_2x1 (flags_of ''sixel'' False False) example_dims"]
    backend_channel_matrix [of "object_of bgra_2x1 (flags_of ''kitty'' False False) example_dims"]
    backend_channel_matrix [of "object_of bgr_2x1 (flags_of ''x11'' False False) example_dims"]
    backend_channel_matrix [of "object_of bgr_2x1 (flags_of ''kitty'' False False) example_dims"]
    backend_channel_matrix [of "object_of gray_2x1 (flags_of ''chafa'' False False) example_dims"]
    backend_channel_matrix [of "object_of gray_2x1 (flags_of ''sixel'' False False) example_dims"]
  by (simp add: object_of_def flags_of_def bgra_2x1_def bgr_2x1_def gray_2x1_def mat_ok_def
        spec_final_channels_def spec_final_pixel_def spec_backend_pixel_def)

end
